theory Spec2Isabelle
  imports Main "HOL-Library.Word"
begin

section \<open>The native allocation registry of native_memory_demo.cpp\<close>

text \<open>
  The file keeps one global, \<^verbatim>\<open>std::vector<NativeBlock> g_blocks\<close>, and exports three JNI
  functions that allocate blocks, release all of them and render statistics. The model
  below follows the file function by function.

  \<^item> \<^verbatim>\<open>size_t\<close> and \<^verbatim>\<open>void*\<close> are as wide as the machine word of the ABI the library is
    built for: 32 bits on armeabi-v7a and x86, 64 bits on arm64-v8a and x86_64. The
    width is the type parameter \<open>'w\<close>; arithmetic on \<open>'w word\<close> wraps as \<^verbatim>\<open>size_t\<close> does.
  \<^item> \<^verbatim>\<open>jint\<close> is a signed 32-bit and \<^verbatim>\<open>jlong\<close> a signed 64-bit integer (jni.h); both
    are words read through \<open>sint\<close>.
  \<^item> The calls into the C library and the kernel (mmap, malloc, memset, munmap, free)
    are effects: each call is appended to a trace, and what the two allocation
    primitives return is given by the environment.
  \<^item> The vector is a list. The memory of the vector itself is not modelled:
    \<^verbatim>\<open>push_back\<close> always appends.
  \<^item> The JNI functions are named without the prefix
    \<^verbatim>\<open>Java_com_androidperformance_memorylab_NativeBridge_\<close>, and each returns its result
    together with the state of the process after the call.
\<close>

type_synonym jint = "32 word"
type_synonym jlong = "64 word"

text \<open>\<^verbatim>\<open>struct NativeBlock { void* ptr; size_t size; bool use_mmap; }\<close>. The field \<^verbatim>\<open>size\<close>
  is \<open>size_b\<close> here, \<open>size\<close> being a constant of HOL.\<close>

record (overloaded) 'w NativeBlock =
  ptr :: "'w word"
  size_b :: "'w word"
  use_mmap :: bool

text \<open>The primitives the file calls, with the arguments that vary; \<open>'a\<close> is the type of
  addresses and sizes, \<open>'w word\<close> below. \<^verbatim>\<open>Mmap len\<close> stands for
  \<^verbatim>\<open>mmap(nullptr, len, PROT_READ | PROT_WRITE, MAP_PRIVATE | MAP_ANONYMOUS, -1, 0)\<close>, and
  the fill byte of \<^verbatim>\<open>memset\<close> is its \<^verbatim>\<open>int\<close> argument.\<close>

datatype 'a prim =
    Mmap 'a
  | Malloc 'a
  | Memset 'a int 'a
  | Munmap 'a 'a
  | Free 'a

text \<open>The state of the process as far as the file can change it: the global vector and
  the primitives called so far, oldest first.\<close>

record (overloaded) 'w proc =
  g_blocks :: "'w NativeBlock list"
  trace :: "'w word prim list"

definition nullptr :: "'w::len word" where
  "nullptr = 0"

text \<open>\<^verbatim>\<open>MAP_FAILED\<close> is \<^verbatim>\<open>((void * ) -1)\<close> in sys/mman.h.\<close>

definition MAP_FAILED :: "'w::len word" where
  "MAP_FAILED = - 1"

text \<open>\<^verbatim>\<open>static_cast<size_t>\<close> of a \<^verbatim>\<open>jint\<close> and \<^verbatim>\<open>static_cast<jlong>\<close> of a \<^verbatim>\<open>size_t\<close>:
  conversion of the value modulo the width of the target.\<close>

definition size_t_of_jint :: "jint \<Rightarrow> 'w::len word" where
  "size_t_of_jint x = word_of_int (sint x)"

definition jlong_of_size_t :: "'w::len word \<Rightarrow> jlong" where
  "jlong_of_size_t x = word_of_nat (unat x)"

text \<open>\<^verbatim>\<open>total_allocated_bytes\<close> adds the sizes of all descriptors in a \<^verbatim>\<open>size_t\<close>, starting
  from 0.\<close>

definition total_allocated_bytes :: "'w::len proc \<Rightarrow> 'w word" where
  "total_allocated_bytes p = fold (\<lambda>block total. total + size_b block) (g_blocks p) 0"

text \<open>\<^verbatim>\<open>free_block\<close> returns at once for a null address or a size of zero, and otherwise
  calls \<^verbatim>\<open>munmap(ptr, size)\<close> or \<^verbatim>\<open>free(ptr)\<close>, by the tag.\<close>

definition free_block :: "'w::len NativeBlock \<Rightarrow> 'w proc \<Rightarrow> 'w proc" where
  "free_block block p =
     (if ptr block = nullptr \<or> size_b block = 0 then p
      else if use_mmap block
        then p\<lparr>trace := trace p @ [Munmap (ptr block) (size_b block)]\<rparr>
        else p\<lparr>trace := trace p @ [Free (ptr block)]\<rparr>)"

subsection \<open>allocateNativeBlocks\<close>

text \<open>
  The environment \<open>env\<close> of one call of \<^verbatim>\<open>allocateNativeBlocks\<close> gives, for the loop index
  \<open>i\<close>, the raw value the allocation primitive called in that iteration returns: what
  \<^verbatim>\<open>mmap\<close> returns when \<open>i\<close> is even, what \<^verbatim>\<open>malloc\<close> returns when \<open>i\<close> is odd.

  The body of the loop
  \<^verbatim>\<open>for (int i = 0; i < block_count; ++i)\<close>. The index is never negative, so \<^verbatim>\<open>i % 2\<close> is
  \<open>i mod 2\<close>, and it stays below \<^verbatim>\<open>block_count\<close>, so \<^verbatim>\<open>++i\<close> does not overflow.
\<close>

definition alloc_body :: "(nat \<Rightarrow> 'w::len word) \<Rightarrow> 'w word \<Rightarrow> nat \<Rightarrow> 'w proc \<Rightarrow> 'w proc" where
  "alloc_body env block_size i p =
     (let mm = (i mod 2 = 0);
          (a, p1) =
            (if mm
             then (if env i = MAP_FAILED then nullptr else env i,
                   p\<lparr>trace := trace p @ [Mmap block_size]\<rparr>)
             else (env i, p\<lparr>trace := trace p @ [Malloc block_size]\<rparr>))
      in if a = nullptr then p1
         else p1\<lparr>trace := trace p1 @ [Memset a 0x5A block_size],
                 g_blocks := g_blocks p1 @ [\<lparr>ptr = a, size_b = block_size, use_mmap = mm\<rparr>]\<rparr>)"

function alloc_loop ::
  "(nat \<Rightarrow> 'w::len word) \<Rightarrow> nat \<Rightarrow> 'w word \<Rightarrow> nat \<Rightarrow> 'w proc \<Rightarrow> 'w proc" where
  "alloc_loop env block_count block_size i p =
     (if i < block_count
      then alloc_loop env block_count block_size (Suc i) (alloc_body env block_size i p)
      else p)"
  by pat_completeness auto
termination
  by (relation "measure (\<lambda>(env, block_count, block_size, i, p). block_count - i)") auto

declare alloc_loop.simps [simp del]

definition allocateNativeBlocks ::
  "(nat \<Rightarrow> 'w::len word) \<Rightarrow> jint \<Rightarrow> jint \<Rightarrow> 'w proc \<Rightarrow> jlong \<times> 'w proc" where
  "allocateNativeBlocks env block_count block_size_mb p =
     (if sint block_count \<le> 0 \<or> sint block_size_mb \<le> 0
      then (jlong_of_size_t (total_allocated_bytes p), p)
      else
        let block_size = size_t_of_jint block_size_mb * 1024 * 1024;
            p' = alloc_loop env (nat (sint block_count)) block_size 0 p
        in (jlong_of_size_t (total_allocated_bytes p'), p'))"

subsection \<open>freeAllNativeBlocks\<close>

definition freeAllNativeBlocks :: "'w::len proc \<Rightarrow> jlong \<times> 'w proc" where
  "freeAllNativeBlocks p =
     (let before = total_allocated_bytes p;
          p1 = fold free_block (g_blocks p) p;
          p2 = p1\<lparr>g_blocks := []\<rparr>
      in (jlong_of_size_t before, p2))"

subsection \<open>getNativeStats\<close>

text \<open>
  \<^verbatim>\<open>std::to_string\<close> of an unsigned integer (\<^verbatim>\<open>size_t\<close>) prints it in decimal, without
  leading zeros.
\<close>

definition digit_char :: "nat \<Rightarrow> char" where
  "digit_char d = ''0123456789'' ! (d mod 10)"

fun to_string :: "nat \<Rightarrow> string" where
  "to_string n =
     (if n < 10 then [digit_char n] else to_string (n div 10) @ [digit_char (n mod 10)])"

declare to_string.simps [simp del]

text \<open>
  The \<^verbatim>\<open>double\<close> values of \<^verbatim>\<open>getNativeStats\<close> are finite and not negative, and each is an
  integer divided by a power of two: the pair \<open>(m, k)\<close> stands for \<open>m / 2 ^ k\<close>.
  \<^item> \<^verbatim>\<open>static_cast<double>(bytes)\<close> rounds to 53 significant bits, to nearest and ties to
    even (IEEE 754); below \<open>2 ^ 53\<close> it is exact.
  \<^item> \<^verbatim>\<open>1024.0 * 1024.0\<close> is \<open>2 ^ 20\<close>, and dividing by it only lowers the exponent.
  \<^item> \<^verbatim>\<open>std::to_string\<close> of a \<^verbatim>\<open>double\<close> prints as \<^verbatim>\<open>printf("%f")\<close> does: the integer part, a
    point and six digits, the exact value rounded to nearest at the sixth digit, ties to
    even (as the C libraries of Android and of GNU do).
\<close>

type_synonym double = "nat \<times> nat"

fun bit_length :: "nat \<Rightarrow> nat" where
  "bit_length n = (if n = 0 then 0 else Suc (bit_length (n div 2)))"

declare bit_length.simps [simp del]

definition round_half_even :: "nat \<Rightarrow> nat \<Rightarrow> nat" where
  "round_half_even x d =
     (let q = x div d; r = x mod d
      in if d < 2 * r \<or> (2 * r = d \<and> odd q) then q + 1 else q)"

definition double_of_size_t :: "'w::len word \<Rightarrow> double" where
  "double_of_size_t x =
     (let n = unat x; e = bit_length n - 53
      in (round_half_even n (2 ^ e) * 2 ^ e, 0))"

definition div_pow2 :: "double \<Rightarrow> nat \<Rightarrow> double" where
  "div_pow2 v j = (fst v, snd v + j)"

definition six_digits :: "nat \<Rightarrow> string" where
  "six_digits x =
     [digit_char (x div 100000), digit_char (x div 10000), digit_char (x div 1000),
      digit_char (x div 100), digit_char (x div 10), digit_char x]"

definition to_string_double :: "double \<Rightarrow> string" where
  "to_string_double v =
     (let n = round_half_even (fst v * 10 ^ 6) (2 ^ snd v)
      in to_string (n div 10 ^ 6) @ ''.'' @ six_digits (n mod 10 ^ 6))"

text \<open>The millionths of a megabyte that the third field shows for a total.\<close>

definition mb_micro :: "'w::len word \<Rightarrow> nat" where
  "mb_micro bytes = round_half_even (fst (double_of_size_t bytes) * 10 ^ 6) (2 ^ 20)"

text \<open>The function returns the string and the state of the process after the call.
  \<^verbatim>\<open>g_blocks.size()\<close> is the number of elements of the vector.\<close>

definition getNativeStats :: "'w::len proc \<Rightarrow> string \<times> 'w proc" where
  "getNativeStats p =
     (let bytes = total_allocated_bytes p;
          mb = div_pow2 (double_of_size_t bytes) 20;
          out = ''nativeBlocks='' @ to_string (length (g_blocks p))
              @ CHR 0x0A # ''nativeBytes='' @ to_string (unat bytes)
              @ CHR 0x0A # ''nativeMb='' @ to_string_double mb
      in (out, p))"

subsection \<open>Notions the properties are stated with\<close>

text \<open>
  The allocation of iteration \<open>i\<close> succeeds when the primitive returns an address:
  \<^verbatim>\<open>mmap\<close> neither \<^verbatim>\<open>MAP_FAILED\<close> nor null, \<^verbatim>\<open>malloc\<close> not null.
\<close>

definition succeeds :: "(nat \<Rightarrow> 'w::len word) \<Rightarrow> nat \<Rightarrow> bool" where
  "succeeds env i =
     (if i mod 2 = 0 then env i \<noteq> MAP_FAILED \<and> env i \<noteq> nullptr else env i \<noteq> nullptr)"

definition all_succeed :: "(nat \<Rightarrow> 'w::len word) \<Rightarrow> nat \<Rightarrow> bool" where
  "all_succeed env n = list_all (succeeds env) [0..<n]"

text \<open>The descriptor iteration \<open>i\<close> appends when its allocation succeeds.\<close>

definition block_of :: "(nat \<Rightarrow> 'w::len word) \<Rightarrow> 'w word \<Rightarrow> nat \<Rightarrow> 'w NativeBlock" where
  "block_of env block_size i = \<lparr>ptr = env i, size_b = block_size, use_mmap = (i mod 2 = 0)\<rparr>"

text \<open>The primitives iteration \<open>i\<close> calls.\<close>

definition calls_of :: "(nat \<Rightarrow> 'w::len word) \<Rightarrow> 'w word \<Rightarrow> nat \<Rightarrow> 'w word prim list" where
  "calls_of env block_size i =
     (if i mod 2 = 0 then [Mmap block_size] else [Malloc block_size])
     @ (if succeeds env i then [Memset (env i) 0x5A block_size] else [])"

text \<open>The descriptors satisfy the invariant of the registry.\<close>

definition valid_block :: "'w::len NativeBlock \<Rightarrow> bool" where
  "valid_block b = (ptr b \<noteq> nullptr \<and> size_b b \<noteq> 0)"

text \<open>The calls of a trace that request memory.\<close>

fun is_alloc :: "'a prim \<Rightarrow> bool" where
  "is_alloc (Mmap len) = True"
| "is_alloc (Malloc len) = True"
| "is_alloc c = False"

text \<open>The primitive that requests the block of index \<open>i\<close>.\<close>

definition request_of :: "'a \<Rightarrow> nat \<Rightarrow> 'a prim" where
  "request_of block_size i = (if i mod 2 = 0 then Mmap block_size else Malloc block_size)"

text \<open>What the release of one descriptor calls.\<close>

definition release_calls :: "'w::len NativeBlock \<Rightarrow> 'w word prim list" where
  "release_calls b =
     (if ptr b = nullptr \<or> size_b b = 0 then []
      else if use_mmap b then [Munmap (ptr b) (size_b b)] else [Free (ptr b)])"

text \<open>A string cut at every occurrence of a character.\<close>

fun split_on :: "char \<Rightarrow> string \<Rightarrow> string list" where
  "split_on c [] = [[]]"
| "split_on c (x # xs) =
     (if x = c then [] # split_on c xs
      else (case split_on c xs of [] \<Rightarrow> [[x]] | y # ys \<Rightarrow> (x # y) # ys))"

text \<open>Sample environments: one that hands out consecutive regions from a base address,
  and one that lets the allocation of a given index fail.\<close>

definition bump_env :: "'w::len word \<Rightarrow> 'w word \<Rightarrow> nat \<Rightarrow> 'w word" where
  "bump_env base stride i = base + of_nat i * stride"

definition fail_at :: "nat \<Rightarrow> (nat \<Rightarrow> 'w::len word) \<Rightarrow> nat \<Rightarrow> 'w word" where
  "fail_at k env i = (if i = k then (if i mod 2 = 0 then MAP_FAILED else nullptr) else env i)"

text \<open>The environment of a 64-bit process that hands out regions of 1 MiB from
  \<open>0x10200000\<close> on and lets the allocation of index 1, a \<^verbatim>\<open>malloc\<close>, fail.\<close>

definition env_fail_1 :: "nat \<Rightarrow> 64 word" where
  "env_fail_1 = fail_at 1 (bump_env 0x10200000 0x100000)"

text \<open>The environment of a 32-bit process in which \<^verbatim>\<open>mmap\<close> fails at index 0 and
  \<^verbatim>\<open>malloc\<close> returns the address \<open>0x10100000\<close> at index 1.\<close>

definition env32_mmap_fails :: "nat \<Rightarrow> 32 word" where
  "env32_mmap_fails = fail_at 0 (bump_env 0x10000000 0x100000)"

definition empty_proc :: "'w::len proc" where
  "empty_proc = \<lparr>g_blocks = [], trace = []\<rparr>"

text \<open>Sample states of a 64-bit process: two live blocks of 1 MiB, the state after
  four blocks of 1 MiB were allocated in one call on the empty registry, and a ledger
  that also holds a descriptor with a null address and one of size zero.\<close>

definition two_blocks :: "64 proc" where
  "two_blocks =
     \<lparr>g_blocks = [\<lparr>ptr = 0x10000000, size_b = 0x100000, use_mmap = True\<rparr>,
                  \<lparr>ptr = 0x10100000, size_b = 0x100000, use_mmap = False\<rparr>],
      trace = []\<rparr>"

definition four_blocks :: "64 proc" where
  "four_blocks =
     \<lparr>g_blocks = [\<lparr>ptr = 0x10000000, size_b = 0x100000, use_mmap = True\<rparr>,
                  \<lparr>ptr = 0x10100000, size_b = 0x100000, use_mmap = False\<rparr>,
                  \<lparr>ptr = 0x10200000, size_b = 0x100000, use_mmap = True\<rparr>,
                  \<lparr>ptr = 0x10300000, size_b = 0x100000, use_mmap = False\<rparr>],
      trace = [Mmap 0x100000, Memset 0x10000000 0x5A 0x100000,
               Malloc 0x100000, Memset 0x10100000 0x5A 0x100000,
               Mmap 0x100000, Memset 0x10200000 0x5A 0x100000,
               Malloc 0x100000, Memset 0x10300000 0x5A 0x100000]\<rparr>"

definition odd_blocks :: "64 proc" where
  "odd_blocks =
     \<lparr>g_blocks = [\<lparr>ptr = 0, size_b = 0x1000, use_mmap = True\<rparr>,
                  \<lparr>ptr = 0x2000, size_b = 0, use_mmap = False\<rparr>,
                  \<lparr>ptr = 0x10000000, size_b = 0x100000, use_mmap = True\<rparr>,
                  \<lparr>ptr = 0x10100000, size_b = 0x100000, use_mmap = False\<rparr>],
      trace = []\<rparr>"

text \<open>
  Reading a string of ASCII digits back as a number: the value of a digit, the value of
  a string of digits, and what it is for a string to be the decimal numeral of a
  number, without leading zeros.
\<close>

definition is_digit :: "char \<Rightarrow> bool" where
  "is_digit c = (48 \<le> (of_char c :: nat) \<and> (of_char c :: nat) \<le> 57)"

definition digit_val :: "char \<Rightarrow> nat" where
  "digit_val c = of_char c - 48"

definition decimal :: "string \<Rightarrow> nat" where
  "decimal s = foldl (\<lambda>a c. 10 * a + digit_val c) 0 s"

definition shows_nat :: "string \<Rightarrow> nat \<Rightarrow> bool" where
  "shows_nat s n =
     (s \<noteq> [] \<and> list_all is_digit s \<and> decimal s = n \<and> (hd s = CHR ''0'' \<longrightarrow> s = ''0''))"

text \<open>\<open>q\<close> is the integer nearest to \<open>x / d\<close>, the even one when two integers are
  equally near.\<close>

definition nearest_even :: "nat \<Rightarrow> nat \<Rightarrow> nat \<Rightarrow> bool" where
  "nearest_even q x d =
     (2 * (q * d) \<le> 2 * x + d \<and> 2 * x \<le> 2 * (q * d) + d
      \<and> (2 * (q * d) = 2 * x + d \<or> 2 * x = 2 * (q * d) + d \<longrightarrow> even q))"

text \<open>A registry of a 64-bit process with one page-mapped block of the given size.\<close>

definition one_block :: "64 word \<Rightarrow> 64 proc" where
  "one_block s = \<lparr>g_blocks = [\<lparr>ptr = 0x10000000, size_b = s, use_mmap = True\<rparr>], trace = []\<rparr>"

section \<open>Properties\<close>

lemma total_allocated_bytes_sum:
  "total_allocated_bytes p = sum_list (map size_b (g_blocks p))"
proof -
  have "fold (\<lambda>block total. total + size_b block) bs a = a + sum_list (map size_b bs)"
    for bs :: "'a NativeBlock list" and a
    by (induction bs arbitrary: a) (simp_all add: add.assoc)
  then show ?thesis by (simp add: total_allocated_bytes_def)
qed

subsection \<open>The conversions\<close>

lemma uint_less_of_unat_less:
  assumes "unat (x::'a::len word) < 2 ^ 63"
  shows "uint x < 2 ^ 63"
proof -
  have "int (unat x) < int (2 ^ 63)"
    using assms by (simp only: of_nat_less_iff)
  then show ?thesis by simp
qed

lemma sint_jlong_of_size_t:
  assumes "unat x < 2 ^ 63"
  shows "sint (jlong_of_size_t x) = int (unat x)"
proof -
  have "sint (word_of_int (uint x) :: 64 word) = signed_take_bit (LENGTH(64) - 1) (uint x)"
    by (rule sint_sbintrunc')
  also have "\<dots> = uint x"
  proof (rule signed_take_bit_int_eq_self)
    have "- (2 ^ (LENGTH(64) - 1)) \<le> (0::int)" by simp
    also have "0 \<le> uint x" by simp
    finally show "- (2 ^ (LENGTH(64) - 1)) \<le> uint x" .
    show "uint x < 2 ^ (LENGTH(64) - 1)"
      using uint_less_of_unat_less [OF assms] by simp
  qed
  finally show ?thesis
    by (simp add: jlong_of_size_t_def)
qed

lemma jlong_of_size_t_0: "jlong_of_size_t 0 = 0"
  by (simp add: jlong_of_size_t_def)

lemma unat_block_size:
  fixes s :: jint
  assumes "0 < sint s" "nat (sint s) * 1024 * 1024 < 2 ^ LENGTH('w)"
  shows "unat (size_t_of_jint s * 1024 * 1024 :: 'w::len word) = nat (sint s) * 1024 * 1024"
proof -
  have "size_t_of_jint s * 1024 * 1024 = (of_nat (nat (sint s) * 1024 * 1024) :: 'w word)"
    using assms(1) by (simp add: size_t_of_jint_def)
  then show ?thesis using assms(2) by (simp add: unat_of_nat del: of_nat_mult)
qed

subsection \<open>The total and the allocation loop\<close>

lemma total_append:
  "g_blocks p' = g_blocks p @ bs \<Longrightarrow>
   total_allocated_bytes p' = total_allocated_bytes p + sum_list (map size_b bs)"
  by (simp add: total_allocated_bytes_sum)

lemma total_empty: "g_blocks p = [] \<Longrightarrow> total_allocated_bytes p = 0"
  by (simp add: total_allocated_bytes_sum)

lemma sum_list_block_of:
  "sum_list (map (size_b \<circ> block_of env bs) is) = of_nat (length is) * bs"
  by (induction "is") (simp_all add: block_of_def algebra_simps)

lemma sizes_block_of: "map size_b (map (block_of env bs) is) = replicate (length is) bs"
  by (induction "is") (simp_all add: block_of_def)

lemma alloc_loop_fold:
  "alloc_loop env n bs i p = fold (alloc_body env bs) [i..<n] p"
proof (induction env n bs i p rule: alloc_loop.induct)
  case (1 env n bs i p)
  show ?case
  proof (cases "i < n")
    case True
    then show ?thesis using 1 by (subst alloc_loop.simps) (simp add: upt_conv_Cons)
  next
    case False
    then show ?thesis by (subst alloc_loop.simps) simp
  qed
qed

lemma g_blocks_alloc_body:
  "g_blocks (alloc_body env bs i p) =
     g_blocks p @ (if succeeds env i then [block_of env bs i] else [])"
  by (simp add: alloc_body_def succeeds_def block_of_def Let_def)

lemma trace_alloc_body:
  "trace (alloc_body env bs i p) = trace p @ calls_of env bs i"
  by (simp add: alloc_body_def succeeds_def calls_of_def Let_def)

lemma g_blocks_fold_alloc_body:
  "g_blocks (fold (alloc_body env bs) is p) =
     g_blocks p @ map (block_of env bs) (filter (succeeds env) is)"
  by (induction "is" arbitrary: p) (simp_all add: g_blocks_alloc_body)

lemma trace_fold_alloc_body:
  "trace (fold (alloc_body env bs) is p) = trace p @ concat (map (calls_of env bs) is)"
  by (induction "is" arbitrary: p) (simp_all add: trace_alloc_body)

lemma all_succeed_iff: "all_succeed env n \<longleftrightarrow> (\<forall>i<n. succeeds env i)"
  by (auto simp: all_succeed_def list_all_iff)

lemma filter_all_succeed: "all_succeed env n \<Longrightarrow> filter (succeeds env) [0..<n] = [0..<n]"
  by (simp add: all_succeed_def list_all_iff)

lemma filter_is_alloc_calls:
  "filter is_alloc (concat (map (calls_of env bs) is)) = map (request_of bs) is"
  by (induction "is") (simp_all add: calls_of_def request_of_def)

text \<open>A request with positive arguments runs the loop from index 0.\<close>

lemma allocate_valid:
  assumes "0 < sint n" "0 < sint s"
  shows "allocateNativeBlocks env n s p =
    (jlong_of_size_t (total_allocated_bytes
        (fold (alloc_body env (size_t_of_jint s * 1024 * 1024)) [0..<nat (sint n)] p)),
     fold (alloc_body env (size_t_of_jint s * 1024 * 1024)) [0..<nat (sint n)] p)"
  using assms by (simp add: allocateNativeBlocks_def alloc_loop_fold Let_def)

lemma g_blocks_allocate:
  assumes "0 < sint n" "0 < sint s"
  shows "g_blocks (snd (allocateNativeBlocks env n s p)) =
    g_blocks p @ map (block_of env (size_t_of_jint s * 1024 * 1024))
                     (filter (succeeds env) [0..<nat (sint n)])"
  by (simp add: allocate_valid [OF assms] g_blocks_fold_alloc_body)

lemma trace_allocate:
  assumes "0 < sint n" "0 < sint s"
  shows "trace (snd (allocateNativeBlocks env n s p)) =
    trace p @ concat (map (calls_of env (size_t_of_jint s * 1024 * 1024)) [0..<nat (sint n)])"
  by (simp add: allocate_valid [OF assms] trace_fold_alloc_body)

lemma fst_allocate:
  "fst (allocateNativeBlocks env n s p) =
     jlong_of_size_t (total_allocated_bytes (snd (allocateNativeBlocks env n s p)))"
  by (simp add: allocateNativeBlocks_def Let_def)

lemma total_allocate:
  assumes "0 < sint n" "0 < sint s"
  shows "total_allocated_bytes (snd (allocateNativeBlocks env n s p)) =
    total_allocated_bytes p
    + of_nat (length (filter (succeeds env) [0..<nat (sint n)])) * (size_t_of_jint s * 1024 * 1024)"
  by (simp add: total_append [OF g_blocks_allocate [OF assms]] sum_list_block_of)

subsection \<open>The release path\<close>

lemma free_block_calls: "free_block b p = p\<lparr>trace := trace p @ release_calls b\<rparr>"
  by (simp add: free_block_def release_calls_def)

lemma fold_free_block:
  "fold free_block bs p = p\<lparr>trace := trace p @ concat (map release_calls bs)\<rparr>"
  by (induction bs arbitrary: p) (simp_all add: free_block_calls)

subsection \<open>Decimal strings\<close>

lemma digit_char_digit: "digit_char d \<in> set ''0123456789''"
proof -
  have "d mod 10 < length ''0123456789''" by simp
  then show ?thesis unfolding digit_char_def by (rule nth_mem)
qed

lemma to_string_digits: "set (to_string n) \<subseteq> set ''0123456789''"
proof (induction n rule: to_string.induct)
  case (1 n)
  show ?case
  proof (cases "n < 10")
    case True
    then show ?thesis
      using digit_char_digit [of n] by (subst to_string.simps) simp
  next
    case False
    then show ?thesis
      using 1 digit_char_digit [of "n mod 10"] by (subst to_string.simps) simp
  qed
qed

lemma six_digits_digits: "set (six_digits x) \<subseteq> set ''0123456789''"
  using digit_char_digit by (simp add: six_digits_def)

lemma length_six_digits: "length (six_digits x) = 6"
  by (simp add: six_digits_def)

lemma to_string_double_digits:
  "set (to_string_double v) \<subseteq> set ''0123456789.''"
  using to_string_digits six_digits_digits
  by (fastforce simp: to_string_double_def Let_def)

lemma split_on_absent: "c \<notin> set xs \<Longrightarrow> split_on c xs = [xs]"
  by (induction xs) auto

lemma split_on_append:
  "c \<notin> set xs \<Longrightarrow> split_on c (xs @ c # ys) = xs # split_on c ys"
  by (induction xs) auto


lemma bit_length_le: "n < 2 ^ k \<Longrightarrow> bit_length n \<le> k"
proof (induction k arbitrary: n)
  case 0
  then show ?case by (subst bit_length.simps) simp
next
  case (Suc k)
  show ?case
  proof (cases "n = 0")
    case True
    then show ?thesis by (subst bit_length.simps) simp
  next
    case False
    have "n div 2 < 2 ^ k" using Suc.prems by simp
    then have "bit_length (n div 2) \<le> k" by (rule Suc.IH)
    with False show ?thesis by (subst bit_length.simps) simp
  qed
qed

lemma round_half_even_1: "round_half_even x (Suc 0) = x"
  by (simp add: round_half_even_def)

lemma double_of_size_t_exact:
  "unat x < 2 ^ 53 \<Longrightarrow> double_of_size_t x = (unat x, 0)"
  using bit_length_le [of "unat x" 53]
  by (simp add: double_of_size_t_def Let_def round_half_even_1)

lemma round_half_even_bounds:
  assumes "0 < d"
  shows "2 * (round_half_even x d * d) \<le> 2 * x + d \<and> 2 * x \<le> 2 * (round_half_even x d * d) + d"
proof -
  define q where "q = x div d"
  define r where "r = x mod d"
  have x: "x = q * d + r" by (simp add: q_def r_def)
  have r: "r < d" using assms by (simp add: r_def)
  show ?thesis
  proof (cases "d < 2 * r \<or> (2 * r = d \<and> odd q)")
    case True
    then have "round_half_even x d = q + 1"
      by (simp add: round_half_even_def q_def r_def Let_def)
    moreover have "d \<le> 2 * r" using True by auto
    ultimately show ?thesis using x r by (simp add: algebra_simps)
  next
    case False
    then have "round_half_even x d = q"
      by (simp add: round_half_even_def q_def r_def Let_def)
    moreover have "2 * r \<le> d" using False by auto
    ultimately show ?thesis using x r by (simp add: algebra_simps)
  qed
qed



lemma stats_string:
  "fst (getNativeStats p) =
     (''nativeBlocks='' @ to_string (length (g_blocks p))) @ CHR 0x0A #
     (''nativeBytes='' @ to_string (unat (total_allocated_bytes p))) @ CHR 0x0A #
     (''nativeMb='' @ to_string_double (div_pow2 (double_of_size_t (total_allocated_bytes p)) 20))"
  by (simp add: getNativeStats_def Let_def)

lemma split_on_three:
  assumes "c \<notin> set a" "c \<notin> set b" "c \<notin> set d"
  shows "split_on c (a @ c # b @ c # d) = [a, b, d]"
  using assms by (simp add: split_on_append split_on_absent)

lemma newline_not_in_digits:
  assumes "set v \<subseteq> set ''0123456789.''"
  shows "CHR 0x0A \<notin> set v"
proof
  assume "CHR 0x0A \<in> set v"
  with assms have "CHR 0x0A \<in> set ''0123456789.''" by (rule subsetD)
  then show False by simp
qed

lemma eq_not_in_digits:
  assumes "set v \<subseteq> set ''0123456789.''"
  shows "CHR ''='' \<notin> set v"
proof
  assume "CHR ''='' \<in> set v"
  with assms have "CHR ''='' \<in> set ''0123456789.''" by (rule subsetD)
  then show False by simp
qed

lemma to_string_digits_dot: "set (to_string n) \<subseteq> set ''0123456789.''"
proof -
  have "set ''0123456789'' \<subseteq> set ''0123456789.''" by (simp add: subset_insertI2)
  with to_string_digits [of n] show ?thesis by (rule subset_trans)
qed

lemma split_on_eq:
  assumes "set v \<subseteq> set ''0123456789.''" "CHR ''='' \<notin> set name"
  shows "split_on (CHR ''='') (name @ CHR ''='' # v) = [name, v]"
  using eq_not_in_digits [OF assms(1)] assms(2) by (simp add: split_on_append split_on_absent)

subsection \<open>Requests that are not valid\<close>

text \<open>
  C3. When \<^verbatim>\<open>block_count <= 0\<close> or \<^verbatim>\<open>block_size_mb <= 0\<close>, \<^verbatim>\<open>allocateNativeBlocks\<close> leaves the
  process as it was, whatever its state: no primitive is called, the registry is the same,
  and the value returned is the current total of the registry converted to \<^verbatim>\<open>jlong\<close>,
  which is the total itself whenever the total is below \<open>2 ^ 63\<close>.
\<close>

theorem allocate_invalid_request_noop:
  fixes p :: "'w::len proc"
  assumes "sint block_count \<le> 0 \<or> sint block_size_mb \<le> 0"
  shows "snd (allocateNativeBlocks env block_count block_size_mb p) = p
    \<and> trace (snd (allocateNativeBlocks env block_count block_size_mb p)) = trace p
    \<and> g_blocks (snd (allocateNativeBlocks env block_count block_size_mb p)) = g_blocks p
    \<and> fst (allocateNativeBlocks env block_count block_size_mb p)
        = jlong_of_size_t (total_allocated_bytes p)
    \<and> (unat (total_allocated_bytes p) < 2 ^ 63 \<longrightarrow>
         sint (fst (allocateNativeBlocks env block_count block_size_mb p))
         = int (unat (total_allocated_bytes p)))"
proof -
  have "allocateNativeBlocks env block_count block_size_mb p
      = (jlong_of_size_t (total_allocated_bytes p), p)"
    using assms by (auto simp: allocateNativeBlocks_def)
  then show ?thesis
    by (simp add: sint_jlong_of_size_t)
qed

text \<open>\<^verbatim>\<open>allocate(-1, 4)\<close> on two blocks of 1 MiB returns 2097152, and \<^verbatim>\<open>allocate(0, 5)\<close> on the
  empty registry returns 0.\<close>

theorem allocate_invalid_request_noop_witness:
  "sint (- 1 :: jint) \<le> 0
   \<and> snd (allocateNativeBlocks (bump_env 0x10200000 0x100000) (- 1) 4 two_blocks) = two_blocks
   \<and> sint (fst (allocateNativeBlocks (bump_env 0x10200000 0x100000) (- 1) 4 two_blocks)) = 2097152
   \<and> sint (0 :: jint) \<le> 0
   \<and> snd (allocateNativeBlocks (bump_env 0x10200000 0x100000) 0 5 (empty_proc :: 64 proc)) = empty_proc
   \<and> sint (fst (allocateNativeBlocks (bump_env 0x10200000 0x100000) 0 5 (empty_proc :: 64 proc))) = 0"
  using allocate_invalid_request_noop [where block_count = "- 1" and block_size_mb = 4
      and p = two_blocks and env = "bump_env 0x10200000 0x100000"]
    allocate_invalid_request_noop [where block_count = 0 and block_size_mb = 5
      and p = "empty_proc :: 64 proc" and env = "bump_env 0x10200000 0x100000"]
  by (simp add: total_allocated_bytes_def two_blocks_def empty_proc_def jlong_of_size_t_def)

subsection \<open>The release of one descriptor\<close>

text \<open>
  C9. \<^verbatim>\<open>free_block\<close> calls no primitive for a descriptor whose address is null or whose
  size is zero. For any other descriptor it calls exactly one: \<^verbatim>\<open>munmap\<close> with the address
  and the size of the descriptor when the descriptor is page-mapped, \<^verbatim>\<open>free\<close> with its
  address when it is not. \<^verbatim>\<open>freeAllNativeBlocks\<close> does this for every descriptor of the
  registry, in the order of the registry.
\<close>

theorem free_block_dispatch:
  "free_block b p = p\<lparr>trace := trace p @ release_calls b\<rparr>
   \<and> (ptr b = nullptr \<or> size_b b = 0 \<longrightarrow> release_calls b = [] \<and> free_block b p = p)
   \<and> (ptr b \<noteq> nullptr \<and> size_b b \<noteq> 0 \<and> use_mmap b \<longrightarrow>
        release_calls b = [Munmap (ptr b) (size_b b)])
   \<and> (ptr b \<noteq> nullptr \<and> size_b b \<noteq> 0 \<and> \<not> use_mmap b \<longrightarrow>
        release_calls b = [Free (ptr b)])
   \<and> trace (snd (freeAllNativeBlocks p)) = trace p @ concat (map release_calls (g_blocks p))"
proof -
  have "trace (snd (freeAllNativeBlocks p)) = trace p @ concat (map release_calls (g_blocks p))"
    by (simp add: freeAllNativeBlocks_def Let_def fold_free_block)
  moreover have "ptr b = nullptr \<or> size_b b = 0 \<longrightarrow> free_block b p = p"
    by (auto simp: free_block_def)
  ultimately show ?thesis
    by (simp add: free_block_calls) (auto simp: release_calls_def)
qed

theorem free_block_dispatch_witness:
  "trace (snd (freeAllNativeBlocks odd_blocks))
     = [Munmap 0x10000000 0x100000, Free 0x10100000]
   \<and> free_block \<lparr>ptr = 0, size_b = 0x1000, use_mmap = True\<rparr> (empty_proc :: 64 proc) = empty_proc
   \<and> free_block \<lparr>ptr = 0x2000, size_b = 0, use_mmap = False\<rparr> (empty_proc :: 64 proc) = empty_proc
   \<and> free_block \<lparr>ptr = 0x10000000, size_b = 0x100000, use_mmap = True\<rparr> (empty_proc :: 64 proc)
       = \<lparr>g_blocks = [], trace = [Munmap 0x10000000 0x100000]\<rparr>
   \<and> free_block \<lparr>ptr = 0x10100000, size_b = 0x100000, use_mmap = False\<rparr> (empty_proc :: 64 proc)
       = \<lparr>g_blocks = [], trace = [Free 0x10100000]\<rparr>"
  using free_block_dispatch [of "\<lparr>ptr = 0, size_b = 0x1000, use_mmap = True\<rparr>" odd_blocks]
    free_block_dispatch [of "\<lparr>ptr = 0, size_b = 0x1000, use_mmap = True\<rparr>" "empty_proc :: 64 proc"]
    free_block_dispatch [of "\<lparr>ptr = 0x2000, size_b = 0, use_mmap = False\<rparr>" "empty_proc :: 64 proc"]
    free_block_dispatch [of "\<lparr>ptr = 0x10000000, size_b = 0x100000, use_mmap = True\<rparr>" "empty_proc :: 64 proc"]
    free_block_dispatch [of "\<lparr>ptr = 0x10100000, size_b = 0x100000, use_mmap = False\<rparr>" "empty_proc :: 64 proc"]
  by (simp add: release_calls_def nullptr_def empty_proc_def odd_blocks_def)

subsection \<open>Numerals read back\<close>

lemma less_10_cases:
  "(k::nat) < 10 \<Longrightarrow>
   k = 0 \<or> k = 1 \<or> k = 2 \<or> k = 3 \<or> k = 4 \<or> k = 5 \<or> k = 6 \<or> k = 7 \<or> k = 8 \<or> k = 9"
  by arith

lemma of_char_nth_digits:
  assumes "k < 10"
  shows "(of_char (''0123456789'' ! k) :: nat) = 48 + k"
  using less_10_cases [OF assms] by (elim disjE) simp_all

lemma of_char_digit_char: "(of_char (digit_char d) :: nat) = 48 + d mod 10"
  unfolding digit_char_def by (rule of_char_nth_digits) simp

lemma is_digit_digit_char: "is_digit (digit_char d)"
proof -
  have "d mod 10 < 10" by simp
  then show ?thesis by (simp add: is_digit_def of_char_digit_char)
qed

lemma digit_val_digit_char: "digit_val (digit_char d) = d mod 10"
  by (simp add: digit_val_def of_char_digit_char)

lemma digit_char_zero_iff: "digit_char d = CHR ''0'' \<longleftrightarrow> d mod 10 = 0"
proof
  assume "digit_char d = CHR ''0''"
  then have "(of_char (digit_char d) :: nat) = of_char (CHR ''0'')" by simp
  then show "d mod 10 = 0" by (simp add: of_char_digit_char)
next
  assume "d mod 10 = 0"
  then show "digit_char d = CHR ''0''" by (simp add: digit_char_def)
qed

lemma decimal_snoc: "decimal (s @ [c]) = 10 * decimal s + digit_val c"
  by (simp add: decimal_def)

lemma to_string_nonempty: "to_string n \<noteq> []"
  by (subst to_string.simps) simp

lemma decimal_to_string: "decimal (to_string n) = n"
proof (induction n rule: to_string.induct)
  case (1 n)
  show ?case
  proof (cases "n < 10")
    case True
    then show ?thesis
      by (subst to_string.simps) (simp add: decimal_def digit_val_digit_char)
  next
    case False
    then have "decimal (to_string (n div 10)) = n div 10" by (rule 1)
    with False show ?thesis
      by (subst to_string.simps) (simp add: decimal_snoc digit_val_digit_char)
  qed
qed

lemma is_digit_to_string: "list_all is_digit (to_string n)"
proof (induction n rule: to_string.induct)
  case (1 n)
  show ?case
  proof (cases "n < 10")
    case True
    then show ?thesis by (subst to_string.simps) (simp add: is_digit_digit_char)
  next
    case False
    then have "list_all is_digit (to_string (n div 10))" by (rule 1)
    with False show ?thesis
      by (subst to_string.simps) (simp add: is_digit_digit_char)
  qed
qed

lemma hd_to_string_zero: "hd (to_string n) = CHR ''0'' \<Longrightarrow> to_string n = ''0''"
proof (induction n rule: to_string.induct)
  case (1 n)
  show ?case
  proof (cases "n < 10")
    case True
    then have eq: "to_string n = [digit_char n]" by (subst to_string.simps) simp
    with "1.prems" have "digit_char n = CHR ''0''" by simp
    then have "n = 0" using True by (simp add: digit_char_zero_iff)
    then show ?thesis by (simp add: to_string.simps digit_char_def)
  next
    case False
    then have eq: "to_string n = to_string (n div 10) @ [digit_char (n mod 10)]"
      by (subst to_string.simps) simp
    with "1.prems" to_string_nonempty [of "n div 10"]
    have "hd (to_string (n div 10)) = CHR ''0''" by simp
    with False have "to_string (n div 10) = ''0''" by (rule 1)
    then have "decimal (to_string (n div 10)) = 0" by (simp add: decimal_def digit_val_def)
    then have "n div 10 = 0" by (simp add: decimal_to_string)
    with False show ?thesis by simp
  qed
qed

lemma shows_nat_to_string: "shows_nat (to_string n) n"
  using hd_to_string_zero [of n]
  by (simp add: shows_nat_def to_string_nonempty is_digit_to_string decimal_to_string)

lemma is_digit_six_digits: "list_all is_digit (six_digits x)"
  by (simp add: six_digits_def is_digit_digit_char)

lemma mod_step: "(x::nat) mod (10 * m) = x div m mod 10 * m + x mod m"
  by (simp add: mod_mult2_eq mult.commute)

lemma decimal_six_digits: "decimal (six_digits x) = x mod 1000000"
proof -
  have "decimal (six_digits x) =
    (x div 100000) mod 10 * 100000 + ((x div 10000) mod 10 * 10000 + ((x div 1000) mod 10 * 1000
    + ((x div 100) mod 10 * 100 + ((x div 10) mod 10 * 10 + x mod 10))))"
    by (simp add: decimal_def six_digits_def digit_val_digit_char)
  also have "(x div 10) mod 10 * 10 + x mod 10 = x mod 100"
    using mod_step [of x 10] by simp
  also have "(x div 100) mod 10 * 100 + x mod 100 = x mod 1000"
    using mod_step [of x 100] by simp
  also have "(x div 1000) mod 10 * 1000 + x mod 1000 = x mod 10000"
    using mod_step [of x 1000] by simp
  also have "(x div 10000) mod 10 * 10000 + x mod 10000 = x mod 100000"
    using mod_step [of x 10000] by simp
  also have "(x div 100000) mod 10 * 100000 + x mod 100000 = x mod 1000000"
    using mod_step [of x 100000] by simp
  finally show ?thesis .
qed

lemma nearest_even_round:
  assumes "0 < d"
  shows "nearest_even (round_half_even x d) x d"
proof -
  define q where "q = x div d"
  define r where "r = x mod d"
  have x: "x = q * d + r" by (simp add: q_def r_def)
  have r: "r < d" using assms by (simp add: r_def)
  show ?thesis
  proof (cases "d < 2 * r \<or> (2 * r = d \<and> odd q)")
    case True
    then have up: "round_half_even x d = q + 1"
      by (simp add: round_half_even_def q_def r_def Let_def)
    have le: "d \<le> 2 * r" using True by auto
    have a: "2 * ((q + 1) * d) \<le> 2 * x + d" using le by (simp add: x algebra_simps)
    have b: "2 * x \<le> 2 * ((q + 1) * d) + d" using r by (simp add: x algebra_simps)
    have c: "2 * ((q + 1) * d) = 2 * x + d \<or> 2 * x = 2 * ((q + 1) * d) + d \<longrightarrow> even (q + 1)"
    proof
      assume "2 * ((q + 1) * d) = 2 * x + d \<or> 2 * x = 2 * ((q + 1) * d) + d"
      then have "d = 2 * r" using r by (auto simp: x algebra_simps)
      with True have "odd q" by auto
      then show "even (q + 1)" by simp
    qed
    show ?thesis unfolding nearest_even_def up by (intro conjI a b c)
  next
    case False
    then have down: "round_half_even x d = q"
      by (simp add: round_half_even_def q_def r_def Let_def)
    have le: "2 * r \<le> d" using False by auto
    have a: "2 * (q * d) \<le> 2 * x + d" by (simp add: x algebra_simps)
    have b: "2 * x \<le> 2 * (q * d) + d" using le by (simp add: x algebra_simps)
    have c: "2 * (q * d) = 2 * x + d \<or> 2 * x = 2 * (q * d) + d \<longrightarrow> even q"
    proof
      assume "2 * (q * d) = 2 * x + d \<or> 2 * x = 2 * (q * d) + d"
      then have "2 * r = d" using assms by (auto simp: x algebra_simps)
      with False show "even q" by auto
    qed
    show ?thesis unfolding nearest_even_def down by (intro conjI a b c)
  qed
qed

lemma bit_length_eq: "2 ^ k \<le> n \<Longrightarrow> n < 2 ^ Suc k \<Longrightarrow> bit_length n = Suc k"
proof (induction k arbitrary: n)
  case 0
  then have "n = 1" by simp
  then show ?case by (simp add: bit_length.simps)
next
  case (Suc k)
  have "2 ^ k \<le> n div 2" using Suc.prems(1) by simp
  moreover have "n div 2 < 2 ^ Suc k" using Suc.prems(2) by simp
  ultimately have "bit_length (n div 2) = Suc k" by (rule Suc.IH)
  moreover have "n \<noteq> 0"
  proof
    assume "n = 0"
    with Suc.prems(1) have "(2::nat) ^ Suc k \<le> 0" by simp
    then show False by simp
  qed
  ultimately show ?case by (subst bit_length.simps) simp
qed

lemma double_of_size_t_rounds:
  assumes "2 ^ (52 + e) \<le> unat x" "unat x < 2 ^ (53 + e)"
  shows "snd (double_of_size_t x) = 0
    \<and> fst (double_of_size_t x) = fst (double_of_size_t x) div 2 ^ e * 2 ^ e
    \<and> nearest_even (fst (double_of_size_t x) div 2 ^ e) (unat x) (2 ^ e)"
proof -
  have "bit_length (unat x) = Suc (52 + e)"
    using assms by (intro bit_length_eq) simp_all
  then have d: "double_of_size_t x = (round_half_even (unat x) (2 ^ e) * 2 ^ e, 0)"
    by (simp add: double_of_size_t_def Let_def)
  have "nearest_even (round_half_even (unat x) (2 ^ e)) (unat x) (2 ^ e)"
    by (rule nearest_even_round) simp
  then show ?thesis by (simp add: d)
qed

lemma nearest_even_mb_micro:
  "nearest_even (mb_micro bytes) (fst (double_of_size_t bytes) * 10 ^ 6) (2 ^ 20)"
  unfolding mb_micro_def by (rule nearest_even_round) simp

subsection \<open>The statistics string\<close>

lemma unat_sum_list:
  "unat (sum_list (map f xs) :: 'w::len word)
     = sum_list (map (\<lambda>a. unat (f a)) xs) mod 2 ^ LENGTH('w)"
proof (induction xs)
  case Nil
  then show ?case by simp
next
  case (Cons x xs)
  have "unat (f x + sum_list (map f xs))
      = (unat (f x) + unat (sum_list (map f xs))) mod 2 ^ LENGTH('w)"
    by (simp add: unat_word_ariths)
  also have "\<dots> = (unat (f x) + sum_list (map (\<lambda>a. unat (f a)) xs) mod 2 ^ LENGTH('w))
      mod 2 ^ LENGTH('w)"
    by (simp only: Cons.IH)
  also have "\<dots> = (unat (f x) + sum_list (map (\<lambda>a. unat (f a)) xs)) mod 2 ^ LENGTH('w)"
    by (simp add: mod_add_right_eq)
  finally show ?case by simp
qed

lemma to_string_double_mb:
  "to_string_double (div_pow2 (double_of_size_t bytes) 20)
     = to_string (mb_micro bytes div 10 ^ 6) @ ''.'' @ six_digits (mb_micro bytes mod 10 ^ 6)"
  by (simp add: to_string_double_def div_pow2_def mb_micro_def double_of_size_t_def Let_def)

lemma mb_micro_bounds:
  assumes "unat bytes < 2 ^ 53"
  shows "2 * (mb_micro bytes * 2 ^ 20) \<le> 2 * (unat bytes * 10 ^ 6) + 2 ^ 20
       \<and> 2 * (unat bytes * 10 ^ 6) \<le> 2 * (mb_micro bytes * 2 ^ 20) + 2 ^ 20"
proof -
  have "mb_micro bytes = round_half_even (unat bytes * 10 ^ 6) (2 ^ 20)"
    by (simp add: mb_micro_def double_of_size_t_exact [OF assms])
  then show ?thesis
    using round_half_even_bounds [of "2 ^ 20" "unat bytes * 10 ^ 6"] by simp
qed

lemma split_stats:
  "split_on (CHR 0x0A) (fst (getNativeStats p)) =
      [''nativeBlocks='' @ to_string (length (g_blocks p)),
       ''nativeBytes='' @ to_string (unat (total_allocated_bytes p)),
       ''nativeMb='' @ to_string_double (div_pow2 (double_of_size_t (total_allocated_bytes p)) 20)]"
proof -
  let ?cnt = "to_string (length (g_blocks p))"
  let ?byt = "to_string (unat (total_allocated_bytes p))"
  let ?m = "to_string_double (div_pow2 (double_of_size_t (total_allocated_bytes p)) 20)"
  have n1: "CHR 0x0A \<notin> set (''nativeBlocks='' @ ?cnt)"
    using newline_not_in_digits [OF to_string_digits_dot, of "length (g_blocks p)"] by simp
  have n2: "CHR 0x0A \<notin> set (''nativeBytes='' @ ?byt)"
    using newline_not_in_digits [OF to_string_digits_dot, of "unat (total_allocated_bytes p)"]
    by simp
  have n3: "CHR 0x0A \<notin> set (''nativeMb='' @ ?m)"
    using newline_not_in_digits [OF to_string_double_digits,
        of "div_pow2 (double_of_size_t (total_allocated_bytes p)) 20"]
    by simp
  show ?thesis
    unfolding stats_string by (rule split_on_three [OF n1 n2 n3])
qed

lemma allocate_4_1:
  "allocateNativeBlocks (bump_env 0x10000000 0x100000) 4 1 (empty_proc :: 64 proc)
     = (4194304, four_blocks)"
  by (simp add: allocateNativeBlocks_def alloc_loop_fold alloc_body_def bump_env_def
      size_t_of_jint_def jlong_of_size_t_def total_allocated_bytes_def MAP_FAILED_def
      nullptr_def empty_proc_def four_blocks_def Let_def upt_conv_Cons)

lemma total_four_blocks: "total_allocated_bytes four_blocks = 4194304"
  by (simp add: total_allocated_bytes_def four_blocks_def)

lemma to_string_4: "to_string 4 = ''4''"
  by (simp add: to_string.simps digit_char_def)

lemma to_string_4194304: "to_string 4194304 = ''4194304''"
  by (simp add: to_string.simps digit_char_def)

lemma mb_micro_4194304: "mb_micro (4194304 :: 64 word) = 4000000"
  using double_of_size_t_exact [of "4194304 :: 64 word"]
  by (simp add: mb_micro_def round_half_even_def)

text \<open>
  C7. \<^verbatim>\<open>getNativeStats\<close> returns, for every state of the registry, three fields separated
  by single newlines, in this order: \<^verbatim>\<open>nativeBlocks\<close> with the number of descriptors,
  \<^verbatim>\<open>nativeBytes\<close> with the byte total, and \<^verbatim>\<open>nativeMb\<close> with the total divided by
  \<open>1024 * 1024\<close>. Each field is its name, one \<^verbatim>\<open>=\<close> and its value.
  \<^item> The first two values are decimal numerals without leading zeros: their characters
    are the ASCII digits and read back, they give the number of descriptors and the
    byte total.
  \<^item> The byte total is the sum of the sizes of the descriptors, added as \<^verbatim>\<open>size_t\<close>
    values (so modulo \<open>2 ^ LENGTH('w)\<close>).
  \<^item> The third value is a decimal numeral without leading zeros, a point and exactly six
    digits. Read back as a number of millionths, it is the integer nearest to
    \<open>d * 10 ^ 6 / 2 ^ 20\<close>, the even one when two are equally near, where \<open>d\<close> is the
    total as a \<^verbatim>\<open>double\<close>: the total itself when it is below \<open>2 ^ 53\<close>, and otherwise, for
    a total from \<open>2 ^ (52 + e)\<close> up to \<open>2 ^ (53 + e)\<close>, the multiple of \<open>2 ^ e\<close> nearest to
    it, the even multiple when two are equally near.
  \<^item> The call leaves the state of the process as it was.
\<close>

theorem stats_three_fields:
  fixes p :: "'w::len proc"
  shows
  "split_on (CHR 0x0A) (fst (getNativeStats p)) =
      [''nativeBlocks='' @ to_string (length (g_blocks p)),
       ''nativeBytes='' @ to_string (unat (total_allocated_bytes p)),
       ''nativeMb='' @ to_string_double (div_pow2 (double_of_size_t (total_allocated_bytes p)) 20)]
   \<and> split_on (CHR ''='') (''nativeBlocks='' @ to_string (length (g_blocks p)))
       = [''nativeBlocks'', to_string (length (g_blocks p))]
   \<and> split_on (CHR ''='') (''nativeBytes='' @ to_string (unat (total_allocated_bytes p)))
       = [''nativeBytes'', to_string (unat (total_allocated_bytes p))]
   \<and> split_on (CHR ''='')
        (''nativeMb='' @ to_string_double (div_pow2 (double_of_size_t (total_allocated_bytes p)) 20))
       = [''nativeMb'', to_string_double (div_pow2 (double_of_size_t (total_allocated_bytes p)) 20)]
   \<and> to_string_double (div_pow2 (double_of_size_t (total_allocated_bytes p)) 20)
       = to_string (mb_micro (total_allocated_bytes p) div 10 ^ 6) @ ''.''
         @ six_digits (mb_micro (total_allocated_bytes p) mod 10 ^ 6)
   \<and> length (six_digits (mb_micro (total_allocated_bytes p) mod 10 ^ 6)) = 6
   \<and> (unat (total_allocated_bytes p) < 2 ^ 53 \<longrightarrow>
        2 * (mb_micro (total_allocated_bytes p) * 2 ^ 20)
          \<le> 2 * (unat (total_allocated_bytes p) * 10 ^ 6) + 2 ^ 20
        \<and> 2 * (unat (total_allocated_bytes p) * 10 ^ 6)
          \<le> 2 * (mb_micro (total_allocated_bytes p) * 2 ^ 20) + 2 ^ 20)
   \<and> total_allocated_bytes p = sum_list (map size_b (g_blocks p))
   \<and> unat (total_allocated_bytes p)
       = sum_list (map (\<lambda>b. unat (size_b b)) (g_blocks p)) mod 2 ^ LENGTH('w)
   \<and> snd (getNativeStats p) = p
   \<and> shows_nat (to_string (length (g_blocks p))) (length (g_blocks p))
   \<and> shows_nat (to_string (unat (total_allocated_bytes p))) (unat (total_allocated_bytes p))
   \<and> shows_nat (to_string (mb_micro (total_allocated_bytes p) div 10 ^ 6))
        (mb_micro (total_allocated_bytes p) div 10 ^ 6)
   \<and> list_all is_digit (six_digits (mb_micro (total_allocated_bytes p) mod 10 ^ 6))
   \<and> decimal (six_digits (mb_micro (total_allocated_bytes p) mod 10 ^ 6))
       = mb_micro (total_allocated_bytes p) mod 10 ^ 6
   \<and> nearest_even (mb_micro (total_allocated_bytes p))
        (fst (double_of_size_t (total_allocated_bytes p)) * 10 ^ 6) (2 ^ 20)
   \<and> (unat (total_allocated_bytes p) < 2 ^ 53 \<longrightarrow>
        fst (double_of_size_t (total_allocated_bytes p)) = unat (total_allocated_bytes p))
   \<and> (\<forall>e. 2 ^ (52 + e) \<le> unat (total_allocated_bytes p)
            \<and> unat (total_allocated_bytes p) < 2 ^ (53 + e) \<longrightarrow>
        fst (double_of_size_t (total_allocated_bytes p))
          = fst (double_of_size_t (total_allocated_bytes p)) div 2 ^ e * 2 ^ e
        \<and> nearest_even (fst (double_of_size_t (total_allocated_bytes p)) div 2 ^ e)
             (unat (total_allocated_bytes p)) (2 ^ e))"
proof -
  let ?cnt = "to_string (length (g_blocks p))"
  let ?byt = "to_string (unat (total_allocated_bytes p))"
  let ?m = "to_string_double (div_pow2 (double_of_size_t (total_allocated_bytes p)) 20)"
  note 1 = split_stats [of p]
  have 2: "split_on (CHR ''='') (''nativeBlocks='' @ ?cnt) = [''nativeBlocks'', ?cnt]"
    using split_on_eq [OF to_string_digits_dot, of "''nativeBlocks''"] by simp
  have 3: "split_on (CHR ''='') (''nativeBytes='' @ ?byt) = [''nativeBytes'', ?byt]"
    using split_on_eq [OF to_string_digits_dot, of "''nativeBytes''"] by simp
  have 4: "split_on (CHR ''='') (''nativeMb='' @ ?m) = [''nativeMb'', ?m]"
    using split_on_eq [OF to_string_double_digits, of "''nativeMb''"] by simp
  have 5: "unat (total_allocated_bytes p)
       = sum_list (map (\<lambda>b. unat (size_b b)) (g_blocks p)) mod 2 ^ LENGTH('w)"
    unfolding total_allocated_bytes_sum by (rule unat_sum_list)
  have 6: "snd (getNativeStats p) = p" by (simp add: getNativeStats_def Let_def)
  have 7: "unat (total_allocated_bytes p) < 2 ^ 53 \<longrightarrow>
        2 * (mb_micro (total_allocated_bytes p) * 2 ^ 20)
          \<le> 2 * (unat (total_allocated_bytes p) * 10 ^ 6) + 2 ^ 20
        \<and> 2 * (unat (total_allocated_bytes p) * 10 ^ 6)
          \<le> 2 * (mb_micro (total_allocated_bytes p) * 2 ^ 20) + 2 ^ 20"
    using mb_micro_bounds [of "total_allocated_bytes p"] by blast
  have 8: "decimal (six_digits (mb_micro (total_allocated_bytes p) mod 10 ^ 6))
       = mb_micro (total_allocated_bytes p) mod 10 ^ 6"
    by (simp add: decimal_six_digits)
  have 9: "unat (total_allocated_bytes p) < 2 ^ 53 \<longrightarrow>
        fst (double_of_size_t (total_allocated_bytes p)) = unat (total_allocated_bytes p)"
    by (simp add: double_of_size_t_exact)
  have 10: "\<forall>e. 2 ^ (52 + e) \<le> unat (total_allocated_bytes p)
            \<and> unat (total_allocated_bytes p) < 2 ^ (53 + e) \<longrightarrow>
        fst (double_of_size_t (total_allocated_bytes p))
          = fst (double_of_size_t (total_allocated_bytes p)) div 2 ^ e * 2 ^ e
        \<and> nearest_even (fst (double_of_size_t (total_allocated_bytes p)) div 2 ^ e)
             (unat (total_allocated_bytes p)) (2 ^ e)"
    using double_of_size_t_rounds [of _ "total_allocated_bytes p"] by blast
  show ?thesis
    by (intro conjI 1 2 3 4 5 6 7 8 9 10 total_allocated_bytes_sum to_string_double_mb
        length_six_digits shows_nat_to_string is_digit_six_digits nearest_even_mb_micro)
qed

text \<open>
  The strings of some states of a 64-bit process. After \<^verbatim>\<open>allocate(4, 1)\<close> on the empty
  registry: \<^verbatim>\<open>nativeBlocks=4\<close>, \<^verbatim>\<open>nativeBytes=4194304\<close>, \<^verbatim>\<open>nativeMb=4.000000\<close>. For four
  descriptors of 4096, 0, 1048576 and 1048576 bytes the total is 2101248 and the
  megabytes are 2.00390625, shown as \<^verbatim>\<open>2.003906\<close>. One block of 8192 bytes is
  0.0078125 megabytes, half-way between two numbers of six digits and shown as the even
  one, \<^verbatim>\<open>0.007812\<close>; one block of 24576 bytes is 0.0234375 megabytes and shown as
  \<^verbatim>\<open>0.023438\<close>. A total of \<open>2 ^ 53 + 1\<close> bytes becomes the \<^verbatim>\<open>double\<close> \<open>2 ^ 53\<close> and is shown as
  \<^verbatim>\<open>8589934592.000000\<close>.
\<close>

theorem stats_three_fields_witness:
  "split_on (CHR 0x0A) (fst (getNativeStats
       (snd (allocateNativeBlocks (bump_env 0x10000000 0x100000) 4 1 (empty_proc :: 64 proc)))))
     = [''nativeBlocks=4'', ''nativeBytes=4194304'', ''nativeMb=4.000000'']
   \<and> unat (total_allocated_bytes
       (snd (allocateNativeBlocks (bump_env 0x10000000 0x100000) 4 1 (empty_proc :: 64 proc))))
       < 2 ^ 53
   \<and> mb_micro (total_allocated_bytes
       (snd (allocateNativeBlocks (bump_env 0x10000000 0x100000) 4 1 (empty_proc :: 64 proc))))
       = 4000000
   \<and> snd (getNativeStats four_blocks) = four_blocks
   \<and> split_on (CHR 0x0A) (fst (getNativeStats odd_blocks))
     = [''nativeBlocks=4'', ''nativeBytes=2101248'', ''nativeMb=2.003906'']
   \<and> split_on (CHR 0x0A) (fst (getNativeStats (one_block 8192)))
     = [''nativeBlocks=1'', ''nativeBytes=8192'', ''nativeMb=0.007812'']
   \<and> split_on (CHR 0x0A) (fst (getNativeStats (one_block 24576)))
     = [''nativeBlocks=1'', ''nativeBytes=24576'', ''nativeMb=0.023438'']
   \<and> 2 ^ (52 + 1) \<le> unat (total_allocated_bytes (one_block 9007199254740993))
   \<and> unat (total_allocated_bytes (one_block 9007199254740993)) < 2 ^ (53 + 1)
   \<and> fst (double_of_size_t (total_allocated_bytes (one_block 9007199254740993)))
       = 9007199254740992
   \<and> split_on (CHR 0x0A) (fst (getNativeStats (one_block 9007199254740993)))
     = [''nativeBlocks=1'', ''nativeBytes=9007199254740993'', ''nativeMb=8589934592.000000'']
   \<and> split_on (CHR 0x0A) (fst (getNativeStats (empty_proc :: 64 proc)))
     = [''nativeBlocks=0'', ''nativeBytes=0'', ''nativeMb=0.000000'']"
proof -
  have six: "six_digits 0 = ''000000''" "six_digits 3906 = ''003906''"
    "six_digits 7812 = ''007812''" "six_digits 23438 = ''023438''"
    by (simp_all add: six_digits_def digit_char_def)
  have len: "length (g_blocks four_blocks) = 4" "length (g_blocks odd_blocks) = 4"
    "length (g_blocks (one_block s)) = 1" "length (g_blocks (empty_proc :: 64 proc)) = 0" for s
    by (simp_all add: four_blocks_def odd_blocks_def one_block_def empty_proc_def)
  have tot: "total_allocated_bytes odd_blocks = 2101248"
    "total_allocated_bytes (one_block s) = s"
    "total_allocated_bytes (empty_proc :: 64 proc) = 0" for s
    by (simp_all add: total_allocated_bytes_def odd_blocks_def one_block_def empty_proc_def)
  have str: "to_string 0 = ''0''" "to_string 1 = ''1''" "to_string 2 = ''2''"
    "to_string 8192 = ''8192''" "to_string 24576 = ''24576''" "to_string 2101248 = ''2101248''"
    "to_string 9007199254740993 = ''9007199254740993''" "to_string 8589934592 = ''8589934592''"
    "to_string (Suc 0) = ''1''"
    by (simp_all add: to_string.simps digit_char_def)
  have exact: "double_of_size_t (x :: 64 word) = (unat x, 0)" if "unat x < 2 ^ 53" for x
    using that by (rule double_of_size_t_exact)
  have mb: "mb_micro (0 :: 64 word) = 0" "mb_micro (2101248 :: 64 word) = 2003906"
    "mb_micro (8192 :: 64 word) = 7812" "mb_micro (24576 :: 64 word) = 23438"
    by (simp_all add: mb_micro_def exact round_half_even_def)
  have "bit_length (unat (9007199254740993 :: 64 word)) = Suc 53"
    by (rule bit_length_eq) simp_all
  then have big: "double_of_size_t (9007199254740993 :: 64 word) = (9007199254740992, 0)"
    by (simp add: double_of_size_t_def round_half_even_def Let_def)
  then have mbbig: "mb_micro (9007199254740993 :: 64 word) = 8589934592000000"
    by (simp add: mb_micro_def round_half_even_def)
  note a = stats_three_fields [of four_blocks, THEN conjunct1]
  note b = stats_three_fields [of odd_blocks, THEN conjunct1]
  note c = stats_three_fields [of "one_block 8192", THEN conjunct1]
  note d = stats_three_fields [of "one_block 24576", THEN conjunct1]
  note e = stats_three_fields [of "one_block 9007199254740993", THEN conjunct1]
  note f = stats_three_fields [of "empty_proc :: 64 proc", THEN conjunct1]
  have 1: "split_on (CHR 0x0A) (fst (getNativeStats
       (snd (allocateNativeBlocks (bump_env 0x10000000 0x100000) 4 1 (empty_proc :: 64 proc)))))
     = [''nativeBlocks=4'', ''nativeBytes=4194304'', ''nativeMb=4.000000'']"
    using a by (simp add: allocate_4_1 total_four_blocks to_string_4 to_string_4194304
        mb_micro_4194304 six len to_string_double_mb)
  have 2: "unat (total_allocated_bytes
       (snd (allocateNativeBlocks (bump_env 0x10000000 0x100000) 4 1 (empty_proc :: 64 proc))))
       < 2 ^ 53"
    by (simp add: allocate_4_1 total_four_blocks)
  have 3: "mb_micro (total_allocated_bytes
       (snd (allocateNativeBlocks (bump_env 0x10000000 0x100000) 4 1 (empty_proc :: 64 proc))))
       = 4000000"
    by (simp add: allocate_4_1 total_four_blocks mb_micro_4194304)
  have 4: "snd (getNativeStats four_blocks) = four_blocks"
    using stats_three_fields [of four_blocks] by blast
  have 5: "split_on (CHR 0x0A) (fst (getNativeStats odd_blocks))
     = [''nativeBlocks=4'', ''nativeBytes=2101248'', ''nativeMb=2.003906'']"
    using b by (simp add: tot len str mb six to_string_4 to_string_double_mb)
  have 6: "split_on (CHR 0x0A) (fst (getNativeStats (one_block 8192)))
     = [''nativeBlocks=1'', ''nativeBytes=8192'', ''nativeMb=0.007812'']"
    using c by (simp add: tot len str mb six to_string_double_mb)
  have 7: "split_on (CHR 0x0A) (fst (getNativeStats (one_block 24576)))
     = [''nativeBlocks=1'', ''nativeBytes=24576'', ''nativeMb=0.023438'']"
    using d by (simp add: tot len str mb six to_string_double_mb)
  have 8: "2 ^ (52 + 1) \<le> unat (total_allocated_bytes (one_block 9007199254740993))"
    "unat (total_allocated_bytes (one_block 9007199254740993)) < 2 ^ (53 + 1)"
    "fst (double_of_size_t (total_allocated_bytes (one_block 9007199254740993)))
       = 9007199254740992"
    by (simp_all add: tot big)
  have 9: "split_on (CHR 0x0A) (fst (getNativeStats (one_block 9007199254740993)))
     = [''nativeBlocks=1'', ''nativeBytes=9007199254740993'', ''nativeMb=8589934592.000000'']"
    using e by (simp add: tot len str mbbig six to_string_double_mb)
  have 10: "split_on (CHR 0x0A) (fst (getNativeStats (empty_proc :: 64 proc)))
     = [''nativeBlocks=0'', ''nativeBytes=0'', ''nativeMb=0.000000'']"
    using f by (simp add: tot len str mb six to_string_double_mb)
  show ?thesis
    by (intro conjI 1 2 3 4 5 6 7 8 9 10)
qed

subsection \<open>Release\<close>

lemma freeAll_eq:
  "freeAllNativeBlocks p =
     (jlong_of_size_t (total_allocated_bytes p),
      \<lparr>g_blocks = [], trace = trace p @ concat (map release_calls (g_blocks p))\<rparr>)"
  by (simp add: freeAllNativeBlocks_def Let_def fold_free_block)

text \<open>
  C2. \<^verbatim>\<open>freeAllNativeBlocks\<close> returns, for every state of the registry, the byte total
  held before the call, converted to \<^verbatim>\<open>jlong\<close>: for a total below \<open>2 ^ 63\<close> this is the
  number that the \<^verbatim>\<open>nativeBytes\<close> field of \<^verbatim>\<open>getNativeStats\<close> shows before the call. After
  the call the registry is empty. A second call right after it returns 0, calls no
  primitive and leaves the registry empty; so does a call on an empty registry.
\<close>

theorem release_all_returns_total:
  fixes p :: "'w::len proc"
  shows
  "fst (freeAllNativeBlocks p) = jlong_of_size_t (total_allocated_bytes p)
   \<and> (unat (total_allocated_bytes p) < 2 ^ 63 \<longrightarrow>
        sint (fst (freeAllNativeBlocks p)) = int (unat (total_allocated_bytes p))
        \<and> split_on (CHR 0x0A) (fst (getNativeStats p)) ! 1
            = ''nativeBytes='' @ to_string (nat (sint (fst (freeAllNativeBlocks p)))))
   \<and> g_blocks (snd (freeAllNativeBlocks p)) = []
   \<and> total_allocated_bytes (snd (freeAllNativeBlocks p)) = 0
   \<and> fst (freeAllNativeBlocks (snd (freeAllNativeBlocks p))) = 0
   \<and> snd (freeAllNativeBlocks (snd (freeAllNativeBlocks p))) = snd (freeAllNativeBlocks p)
   \<and> (g_blocks p = [] \<longrightarrow> fst (freeAllNativeBlocks p) = 0 \<and> snd (freeAllNativeBlocks p) = p)"
proof -
  have a: "fst (freeAllNativeBlocks p) = jlong_of_size_t (total_allocated_bytes p)"
    by (simp add: freeAll_eq)
  have b: "unat (total_allocated_bytes p) < 2 ^ 63 \<longrightarrow>
        sint (fst (freeAllNativeBlocks p)) = int (unat (total_allocated_bytes p))
        \<and> split_on (CHR 0x0A) (fst (getNativeStats p)) ! 1
            = ''nativeBytes='' @ to_string (nat (sint (fst (freeAllNativeBlocks p))))"
    by (simp add: a sint_jlong_of_size_t split_stats)
  have c: "g_blocks (snd (freeAllNativeBlocks p)) = []"
    by (simp add: freeAll_eq)
  have d: "total_allocated_bytes (snd (freeAllNativeBlocks p)) = 0"
    using c by (rule total_empty)
  have e: "fst (freeAllNativeBlocks (snd (freeAllNativeBlocks p))) = 0"
    by (simp add: freeAll_eq [of "snd (freeAllNativeBlocks p)"] d jlong_of_size_t_0)
  have f: "snd (freeAllNativeBlocks (snd (freeAllNativeBlocks p))) = snd (freeAllNativeBlocks p)"
    by (simp add: freeAll_eq)
  have g: "g_blocks p = [] \<longrightarrow> fst (freeAllNativeBlocks p) = 0 \<and> snd (freeAllNativeBlocks p) = p"
    by (simp add: freeAll_eq total_empty jlong_of_size_t_0)
  show ?thesis
    by (intro conjI a b c d e f g)
qed

text \<open>Two blocks of 1 MiB are released: the call returns 2097152, unmaps the first and
  frees the second; the next call returns 0. On the empty registry the call returns 0.\<close>

theorem release_all_returns_total_witness:
  "unat (total_allocated_bytes two_blocks) < 2 ^ 63
   \<and> sint (fst (freeAllNativeBlocks two_blocks)) = 2097152
   \<and> split_on (CHR 0x0A) (fst (getNativeStats two_blocks)) ! 1 = ''nativeBytes=2097152''
   \<and> snd (freeAllNativeBlocks two_blocks)
       = \<lparr>g_blocks = [], trace = [Munmap 0x10000000 0x100000, Free 0x10100000]\<rparr>
   \<and> fst (freeAllNativeBlocks (snd (freeAllNativeBlocks two_blocks))) = 0
   \<and> g_blocks (empty_proc :: 64 proc) = []
   \<and> fst (freeAllNativeBlocks (empty_proc :: 64 proc)) = 0
   \<and> snd (freeAllNativeBlocks (empty_proc :: 64 proc)) = empty_proc"
proof -
  have t: "total_allocated_bytes two_blocks = 2097152"
    by (simp add: total_allocated_bytes_def two_blocks_def)
  have s: "to_string 2097152 = ''2097152''"
    by (simp add: to_string.simps digit_char_def)
  have r: "snd (freeAllNativeBlocks two_blocks)
       = \<lparr>g_blocks = [], trace = [Munmap 0x10000000 0x100000, Free 0x10100000]\<rparr>"
    by (simp add: freeAll_eq two_blocks_def release_calls_def nullptr_def)
  have e: "g_blocks (empty_proc :: 64 proc) = []"
    by (simp add: empty_proc_def)
  note th = release_all_returns_total [of two_blocks]
  note th0 = release_all_returns_total [of "empty_proc :: 64 proc"]
  have 1: "sint (fst (freeAllNativeBlocks two_blocks)) = 2097152"
    using th by (simp add: t jlong_of_size_t_def)
  have 2: "split_on (CHR 0x0A) (fst (getNativeStats two_blocks)) ! 1 = ''nativeBytes=2097152''"
    using th by (simp add: t 1 s jlong_of_size_t_def)
  have 3: "fst (freeAllNativeBlocks (snd (freeAllNativeBlocks two_blocks))) = 0"
    using th by blast
  have 4: "fst (freeAllNativeBlocks (empty_proc :: 64 proc)) = 0"
    using th0 e by blast
  have 5: "snd (freeAllNativeBlocks (empty_proc :: 64 proc)) = empty_proc"
    using th0 e by blast
  have u: "unat (total_allocated_bytes two_blocks) < 2 ^ 63"
    by (simp add: t)
  show ?thesis
    by (intro conjI u 1 2 r 3 e 4 5)
qed

subsection \<open>Allocation from the empty registry\<close>

lemma g_blocks_allocate_all:
  assumes "0 < sint n" "0 < sint s" "all_succeed env (nat (sint n))"
  shows "g_blocks (snd (allocateNativeBlocks env n s p)) =
    g_blocks p @ map (block_of env (size_t_of_jint s * 1024 * 1024)) [0..<nat (sint n)]"
  by (simp add: g_blocks_allocate [OF assms(1,2)] filter_all_succeed [OF assms(3)])

lemma total_allocate_all:
  assumes "0 < sint n" "0 < sint s" "all_succeed env (nat (sint n))"
  shows "total_allocated_bytes (snd (allocateNativeBlocks env n s p)) =
    total_allocated_bytes p + of_nat (nat (sint n)) * (size_t_of_jint s * 1024 * 1024)"
  by (simp add: total_allocate [OF assms(1,2)] filter_all_succeed [OF assms(3)])

lemma unat_count_times_size:
  fixes s :: jint
  assumes "0 < sint s" "0 < k" "k * nat (sint s) * 1024 * 1024 < 2 ^ LENGTH('w)"
  shows "unat (of_nat k * (size_t_of_jint s * 1024 * 1024) :: 'w::len word)
       = k * nat (sint s) * 1024 * 1024"
proof -
  have "of_nat k * (size_t_of_jint s * 1024 * 1024)
      = (of_nat (k * nat (sint s) * 1024 * 1024) :: 'w word)"
    using assms(1) by (simp add: size_t_of_jint_def)
  then show ?thesis using assms(3) by (simp add: unat_of_nat del: of_nat_mult)
qed

text \<open>Where \<^verbatim>\<open>size_t\<close> has 64 bits the block size of a positive \<^verbatim>\<open>block_size_mb\<close> never
  wraps.\<close>

lemma block_size_exact_64:
  fixes s :: jint
  assumes "0 < sint s"
  shows "unat (size_t_of_jint s * 1024 * 1024 :: 64 word) = nat (sint s) * 1024 * 1024"
proof -
  have "sint s < 2 ^ (LENGTH(32) - 1)" by (rule sint_lt)
  then have "nat (sint s) < 2 ^ 31" using assms by (simp add: nat_less_iff)
  then have "nat (sint s) * 1024 * 1024 < 2 ^ 31 * 1024 * 1024" by simp
  also have "\<dots> < (2::nat) ^ LENGTH(64)" by simp
  finally show ?thesis by (rule unat_block_size [OF assms])
qed

lemma all_succeed_bump_4:
  "all_succeed (bump_env (0x10000000 :: 64 word) 0x100000) 4"
  by (simp add: all_succeed_def succeeds_def bump_env_def MAP_FAILED_def nullptr_def
      upt_conv_Cons)

text \<open>
  What the code does whenever the byte counts fit. Let \<open>n > 0\<close> and \<open>s > 0\<close> be such that
  \<open>n * s * 1024 * 1024\<close> is below \<open>2 ^ LENGTH('w)\<close> and below \<open>2 ^ 63\<close>, that is, a value
  of \<^verbatim>\<open>size_t\<close> and of the signed 64-bit result. When the registry is empty and every
  allocation of the call succeeds, \<^verbatim>\<open>allocateNativeBlocks(n, s)\<close> appends exactly \<open>n\<close>
  descriptors, each of size \<open>s * 1024 * 1024\<close>, and returns \<open>n * s * 1024 * 1024\<close>;
  \<^verbatim>\<open>getNativeStats\<close> then shows \<open>n\<close> as the number of blocks and \<open>n * s * 1024 * 1024\<close> as
  the byte total.
\<close>

theorem allocate_from_empty:
  fixes n s :: jint and p :: "'w::len proc"
  assumes "0 < sint n" and "0 < sint s"
    and "g_blocks p = []"
    and "all_succeed env (nat (sint n))"
    and "nat (sint n) * nat (sint s) * 1024 * 1024 < 2 ^ min LENGTH('w) 63"
  shows
  "length (g_blocks (snd (allocateNativeBlocks env n s p))) = nat (sint n)
   \<and> (\<forall>b \<in> set (g_blocks (snd (allocateNativeBlocks env n s p))).
        unat (size_b b) = nat (sint s) * 1024 * 1024)
   \<and> sint (fst (allocateNativeBlocks env n s p)) = sint n * sint s * 1024 * 1024
   \<and> take 2 (split_on (CHR 0x0A) (fst (getNativeStats (snd (allocateNativeBlocks env n s p)))))
       = [''nativeBlocks='' @ to_string (nat (sint n)),
          ''nativeBytes='' @ to_string (nat (sint n) * nat (sint s) * 1024 * 1024)]"
proof -
  let ?N = "nat (sint n)" and ?S = "nat (sint s)"
  let ?bs = "size_t_of_jint s * 1024 * 1024 :: 'w word"
  let ?p' = "snd (allocateNativeBlocks env n s p)"
  have N: "0 < ?N" using assms(1) by simp
  have ltW: "?N * ?S * 1024 * 1024 < 2 ^ LENGTH('w)"
  proof -
    have "(2::nat) ^ min LENGTH('w) 63 \<le> 2 ^ LENGTH('w)"
      by (rule power_increasing) simp_all
    with assms(5) show ?thesis by (rule less_le_trans)
  qed
  have lt63: "?N * ?S * 1024 * 1024 < 2 ^ 63"
  proof -
    have "(2::nat) ^ min LENGTH('w) 63 \<le> 2 ^ 63"
      by (rule power_increasing) simp_all
    with assms(5) show ?thesis by (rule less_le_trans)
  qed
  have "?S * 1024 * 1024 \<le> ?N * ?S * 1024 * 1024" using N by (simp add: Suc_le_eq)
  then have S: "?S * 1024 * 1024 < 2 ^ LENGTH('w)" using ltW by (rule le_less_trans)
  have blocks: "g_blocks ?p' = map (block_of env ?bs) [0..<?N]"
    using g_blocks_allocate_all [OF assms(1,2,4), of p] assms(3) by simp
  have len: "length (g_blocks ?p') = ?N"
    by (simp add: blocks)
  have sizes: "\<forall>b \<in> set (g_blocks ?p'). unat (size_b b) = ?S * 1024 * 1024"
    using unat_block_size [OF assms(2) S] by (auto simp: blocks block_of_def)
  have "total_allocated_bytes ?p' = of_nat ?N * ?bs"
    using total_allocate_all [OF assms(1,2,4), of p] total_empty [OF assms(3)] by simp
  then have total: "unat (total_allocated_bytes ?p') = ?N * ?S * 1024 * 1024"
    using unat_count_times_size [OF assms(2) N ltW] by simp
  have "sint (fst (allocateNativeBlocks env n s p)) = int (?N * ?S * 1024 * 1024)"
    using sint_jlong_of_size_t [of "total_allocated_bytes ?p'"] lt63
    by (simp add: fst_allocate total)
  also have "\<dots> = sint n * sint s * 1024 * 1024"
    using assms(1,2) by simp
  finally have ret: "sint (fst (allocateNativeBlocks env n s p)) = sint n * sint s * 1024 * 1024" .
  have stats: "take 2 (split_on (CHR 0x0A) (fst (getNativeStats ?p')))
       = [''nativeBlocks='' @ to_string ?N,
          ''nativeBytes='' @ to_string (?N * ?S * 1024 * 1024)]"
    by (simp add: split_stats len total)
  show ?thesis
    by (intro conjI len sizes ret stats)
qed

text \<open>\<^verbatim>\<open>allocate(4, 1)\<close> on the empty registry of a 64-bit process: four descriptors of
  1048576 bytes, the result 4194304.\<close>

theorem allocate_from_empty_witness:
  "0 < sint (4 :: jint) \<and> 0 < sint (1 :: jint)
   \<and> g_blocks (empty_proc :: 64 proc) = []
   \<and> all_succeed (bump_env (0x10000000 :: 64 word) 0x100000) (nat (sint (4 :: jint)))
   \<and> nat (sint (4 :: jint)) * nat (sint (1 :: jint)) * 1024 * 1024 < 2 ^ min LENGTH(64) 63
   \<and> length (g_blocks (snd (allocateNativeBlocks (bump_env 0x10000000 0x100000) 4 1
        (empty_proc :: 64 proc)))) = 4
   \<and> map size_b (g_blocks (snd (allocateNativeBlocks (bump_env 0x10000000 0x100000) 4 1
        (empty_proc :: 64 proc)))) = [1048576, 1048576, 1048576, 1048576]
   \<and> sint (fst (allocateNativeBlocks (bump_env 0x10000000 0x100000) 4 1
        (empty_proc :: 64 proc))) = 4194304
   \<and> take 2 (split_on (CHR 0x0A) (fst (getNativeStats
        (snd (allocateNativeBlocks (bump_env 0x10000000 0x100000) 4 1 (empty_proc :: 64 proc))))))
       = [''nativeBlocks=4'', ''nativeBytes=4194304'']"
proof -
  have h1: "0 < sint (4 :: jint)" and h2: "0 < sint (1 :: jint)" by simp_all
  have h3: "g_blocks (empty_proc :: 64 proc) = []" by (simp add: empty_proc_def)
  have h4: "all_succeed (bump_env (0x10000000 :: 64 word) 0x100000) (nat (sint (4 :: jint)))"
    using all_succeed_bump_4 by simp
  have h5: "nat (sint (4 :: jint)) * nat (sint (1 :: jint)) * 1024 * 1024 < 2 ^ min LENGTH(64) 63"
    by simp
  note th = allocate_from_empty [OF h1 h2 h3 h4 h5]
  have 1: "length (g_blocks (snd (allocateNativeBlocks (bump_env 0x10000000 0x100000) 4 1
        (empty_proc :: 64 proc)))) = 4"
    using th by simp
  have 2: "map size_b (g_blocks (snd (allocateNativeBlocks (bump_env 0x10000000 0x100000) 4 1
        (empty_proc :: 64 proc)))) = [1048576, 1048576, 1048576, 1048576]"
    by (simp add: allocate_4_1 four_blocks_def)
  have 3: "sint (fst (allocateNativeBlocks (bump_env 0x10000000 0x100000) 4 1
        (empty_proc :: 64 proc))) = 4194304"
    using th by simp
  have 4: "take 2 (split_on (CHR 0x0A) (fst (getNativeStats
        (snd (allocateNativeBlocks (bump_env 0x10000000 0x100000) 4 1 (empty_proc :: 64 proc))))))
       = [''nativeBlocks=4'', ''nativeBytes=4194304'']"
    using th by (simp add: to_string_4 to_string_4194304)
  show ?thesis
    by (intro conjI h1 h2 h3 h4 h5 1 2 3 4)
qed

text \<open>
  What holds with no bound: the call appends exactly \<open>n\<close> descriptors, all of the block
  size the code computed, and \<^verbatim>\<open>getNativeStats\<close> shows \<open>n\<close> blocks; where \<^verbatim>\<open>size_t\<close> has 64
  bits that block size is \<open>s * 1024 * 1024\<close>.
\<close>

lemma allocate_from_empty_count:
  fixes n s :: jint and p :: "'w::len proc"
  assumes "0 < sint n" and "0 < sint s"
    and "g_blocks p = []"
    and "all_succeed env (nat (sint n))"
  shows
  "length (g_blocks (snd (allocateNativeBlocks env n s p))) = nat (sint n)
   \<and> map size_b (g_blocks (snd (allocateNativeBlocks env n s p)))
       = replicate (nat (sint n)) (size_t_of_jint s * 1024 * 1024)
   \<and> hd (split_on (CHR 0x0A) (fst (getNativeStats (snd (allocateNativeBlocks env n s p)))))
       = ''nativeBlocks='' @ to_string (nat (sint n))"
proof -
  let ?bs = "size_t_of_jint s * 1024 * 1024 :: 'w word"
  let ?p' = "snd (allocateNativeBlocks env n s p)"
  have blocks: "g_blocks ?p' = map (block_of env ?bs) [0..<nat (sint n)]"
    using g_blocks_allocate_all [OF assms(1,2,4), of p] assms(3) by simp
  have len: "length (g_blocks ?p') = nat (sint n)"
    by (simp add: blocks)
  have sizes: "map size_b (g_blocks ?p') = replicate (nat (sint n)) ?bs"
    unfolding blocks sizes_block_of by simp
  have stats: "hd (split_on (CHR 0x0A) (fst (getNativeStats ?p')))
       = ''nativeBlocks='' @ to_string (nat (sint n))"
    by (simp add: split_stats len)
  show ?thesis
    by (intro conjI len sizes stats)
qed

lemma allocate_from_empty_sizes_64:
  fixes n s :: jint and p :: "64 proc"
  assumes "0 < sint n" and "0 < sint s"
    and "g_blocks p = []"
    and "all_succeed env (nat (sint n))"
  shows "map unat (map size_b (g_blocks (snd (allocateNativeBlocks env n s p))))
       = replicate (nat (sint n)) (nat (sint s) * 1024 * 1024)"
proof -
  have m: "map size_b (g_blocks (snd (allocateNativeBlocks env n s p)))
       = replicate (nat (sint n)) (size_t_of_jint s * 1024 * 1024)"
    using allocate_from_empty_count [OF assms] by blast
  show ?thesis
    unfolding m map_replicate by (simp only: block_size_exact_64 [OF assms(2)])
qed

text \<open>
  C1. For every \<open>n > 0\<close> and \<open>s > 0\<close>, \<^verbatim>\<open>allocate(n, s)\<close> on the empty registry, with all
  allocations succeeding, is to append exactly \<open>n\<close> descriptors of \<open>s * 1024 * 1024\<close> bytes
  each and to return \<open>n * s * 1024 * 1024\<close>, which \<^verbatim>\<open>getNativeStats\<close> then shows with the
  block count \<open>n\<close>. The code does so whenever the byte counts fit (the lemmas above). It
  multiplies in \<^verbatim>\<open>size_t\<close> with no check of the result, and where \<^verbatim>\<open>size_t\<close> has 32 bits the
  product wraps: \<^verbatim>\<open>allocate(1, 4097)\<close> on the empty registry, its one allocation
  succeeding, computes the block size \<open>4097 * 1024 * 1024 mod 2 ^ 32 = 1048576\<close>, requests
  and fills 1048576 bytes, appends one descriptor of 1048576 bytes and returns 1048576,
  not \<open>1 * 4097 * 1024 * 1024 = 4296015872\<close>.
\<close>

theorem allocate_wraps_block_size_32:
  "0 < sint (1 :: jint) \<and> 0 < sint (4097 :: jint)
   \<and> g_blocks (empty_proc :: 32 proc) = []
   \<and> all_succeed (bump_env (0x10000000 :: 32 word) 0x100000) (nat (sint (1 :: jint)))
   \<and> allocateNativeBlocks (bump_env 0x10000000 0x100000) 1 4097 (empty_proc :: 32 proc)
       = (1048576,
          \<lparr>g_blocks = [\<lparr>ptr = 0x10000000, size_b = 1048576, use_mmap = True\<rparr>],
           trace = [Mmap 1048576, Memset 0x10000000 0x5A 1048576]\<rparr>)
   \<and> unat (1048576 :: 32 word) \<noteq> nat (sint (4097 :: jint)) * 1024 * 1024
   \<and> sint (fst (allocateNativeBlocks (bump_env 0x10000000 0x100000) 1 4097 (empty_proc :: 32 proc)))
       \<noteq> sint (1 :: jint) * sint (4097 :: jint) * 1024 * 1024
   \<and> split_on (CHR 0x0A) (fst (getNativeStats
         (snd (allocateNativeBlocks (bump_env 0x10000000 0x100000) 1 4097 (empty_proc :: 32 proc)))))
       ! 1 = ''nativeBytes=1048576''"
proof -
  have a: "allocateNativeBlocks (bump_env 0x10000000 0x100000) 1 4097 (empty_proc :: 32 proc)
       = (1048576,
          \<lparr>g_blocks = [\<lparr>ptr = 0x10000000, size_b = 1048576, use_mmap = True\<rparr>],
           trace = [Mmap 1048576, Memset 0x10000000 0x5A 1048576]\<rparr>)"
    by (simp add: allocateNativeBlocks_def alloc_loop_fold alloc_body_def bump_env_def
        size_t_of_jint_def jlong_of_size_t_def total_allocated_bytes_def MAP_FAILED_def
        nullptr_def empty_proc_def Let_def)
  have s: "to_string 1048576 = ''1048576''"
    by (simp add: to_string.simps digit_char_def)
  have b: "split_on (CHR 0x0A) (fst (getNativeStats
         (snd (allocateNativeBlocks (bump_env 0x10000000 0x100000) 1 4097 (empty_proc :: 32 proc)))))
       ! 1 = ''nativeBytes=1048576''"
    unfolding a by (simp add: split_stats total_allocated_bytes_def s)
  have c: "0 < sint (1 :: jint) \<and> 0 < sint (4097 :: jint)
   \<and> g_blocks (empty_proc :: 32 proc) = []
   \<and> all_succeed (bump_env (0x10000000 :: 32 word) 0x100000) (nat (sint (1 :: jint)))"
    by (simp add: bump_env_def MAP_FAILED_def nullptr_def empty_proc_def all_succeed_def
        succeeds_def)
  have d: "unat (1048576 :: 32 word) \<noteq> nat (sint (4097 :: jint)) * 1024 * 1024
   \<and> sint (fst (allocateNativeBlocks (bump_env 0x10000000 0x100000) 1 4097 (empty_proc :: 32 proc)))
       \<noteq> sint (1 :: jint) * sint (4097 :: jint) * 1024 * 1024"
    unfolding a by simp
  from a b c d show ?thesis by blast
qed

subsection \<open>The origin of the blocks\<close>

lemma new_trace_allocate:
  assumes "0 < sint n" "0 < sint s"
  shows "drop (length (trace p)) (trace (snd (allocateNativeBlocks env n s p))) =
    concat (map (calls_of env (size_t_of_jint s * 1024 * 1024)) [0..<nat (sint n)])"
  by (simp add: trace_allocate [OF assms])

lemma new_blocks_allocate:
  assumes "0 < sint n" "0 < sint s"
  shows "drop (length (g_blocks p)) (g_blocks (snd (allocateNativeBlocks env n s p))) =
    map (block_of env (size_t_of_jint s * 1024 * 1024)) (filter (succeeds env) [0..<nat (sint n)])"
  by (simp add: g_blocks_allocate [OF assms])

lemma requests_allocate:
  assumes "0 < sint n" "0 < sint s"
  shows "filter is_alloc (drop (length (trace p)) (trace (snd (allocateNativeBlocks env n s p))))
    = map (request_of (size_t_of_jint s * 1024 * 1024 :: 'w::len word)) [0..<nat (sint n)]"
  by (simp only: new_trace_allocate [OF assms] filter_is_alloc_calls)

lemma count_even_upt: "length (filter (\<lambda>i. i mod 2 = 0) [0..<2 * k]) = k"
  by (induction k) simp_all

lemma count_odd_upt: "length (filter (\<lambda>i. i mod 2 \<noteq> 0) [0..<2 * k]) = k"
  by (induction k) simp_all

lemma filter_use_mmap_block_of:
  "filter use_mmap (map (block_of env bs) is)
     = map (block_of env bs) (filter (\<lambda>i. i mod 2 = 0) is)"
  by (induction "is") (simp_all add: block_of_def)

lemma filter_heap_block_of:
  "filter (\<lambda>b. \<not> use_mmap b) (map (block_of env bs) is)
     = map (block_of env bs) (filter (\<lambda>i. i mod 2 \<noteq> 0) is)"
  by (induction "is") (simp_all add: block_of_def)

text \<open>
  C4. In one call \<^verbatim>\<open>allocateNativeBlocks(N, s)\<close> with \<open>N > 0\<close> and \<open>s > 0\<close> the allocation
  primitives are called once for every index \<open>0, ..., N - 1\<close>, in this order: \<^verbatim>\<open>mmap\<close> for
  the even indices and \<^verbatim>\<open>malloc\<close> for the odd ones. The descriptor appended for index \<open>i\<close>
  is tagged page-mapped exactly when \<open>i\<close> is even. When all allocations succeed, the
  descriptor at position \<open>i\<close> of the appended ones is the one of index \<open>i\<close>; when moreover
  \<open>N\<close> is even, \<open>N div 2\<close> of the appended descriptors are page-mapped and \<open>N div 2\<close> are
  heap blocks.
\<close>

theorem origin_alternates:
  fixes n s :: jint and p :: "'w::len proc"
  assumes "0 < sint n" and "0 < sint s"
  shows
  "filter is_alloc (drop (length (trace p)) (trace (snd (allocateNativeBlocks env n s p))))
     = map (\<lambda>i. if even i then Mmap (size_t_of_jint s * 1024 * 1024)
                 else Malloc (size_t_of_jint s * 1024 * 1024)) [0..<nat (sint n)]
   \<and> drop (length (g_blocks p)) (g_blocks (snd (allocateNativeBlocks env n s p)))
     = map (\<lambda>i. \<lparr>ptr = env i, size_b = size_t_of_jint s * 1024 * 1024, use_mmap = even i\<rparr>)
         (filter (succeeds env) [0..<nat (sint n)])
   \<and> (all_succeed env (nat (sint n)) \<longrightarrow>
        (\<forall>i < nat (sint n).
           use_mmap (g_blocks (snd (allocateNativeBlocks env n s p)) ! (length (g_blocks p) + i))
           = even i))
   \<and> (all_succeed env (nat (sint n)) \<and> even (nat (sint n)) \<longrightarrow>
        length (filter use_mmap
          (drop (length (g_blocks p)) (g_blocks (snd (allocateNativeBlocks env n s p)))))
          = nat (sint n) div 2
        \<and> length (filter (\<lambda>b. \<not> use_mmap b)
          (drop (length (g_blocks p)) (g_blocks (snd (allocateNativeBlocks env n s p)))))
          = nat (sint n) div 2)"
proof -
  let ?N = "nat (sint n)"
  let ?bs = "size_t_of_jint s * 1024 * 1024 :: 'w word"
  let ?p' = "snd (allocateNativeBlocks env n s p)"
  have req: "request_of ?bs = (\<lambda>i. if even i then Mmap ?bs else Malloc ?bs)"
    by (rule ext) (simp add: request_of_def even_iff_mod_2_eq_zero)
  have blk: "block_of env ?bs = (\<lambda>i. \<lparr>ptr = env i, size_b = ?bs, use_mmap = even i\<rparr>)"
    by (rule ext) (simp add: block_of_def even_iff_mod_2_eq_zero)
  have 1: "filter is_alloc (drop (length (trace p)) (trace ?p'))
     = map (\<lambda>i. if even i then Mmap ?bs else Malloc ?bs) [0..<?N]"
    using requests_allocate [OF assms, of p env] by (simp only: req)
  have 2: "drop (length (g_blocks p)) (g_blocks ?p')
     = map (\<lambda>i. \<lparr>ptr = env i, size_b = ?bs, use_mmap = even i\<rparr>) (filter (succeeds env) [0..<?N])"
    using new_blocks_allocate [OF assms, of p env] by (simp only: blk)
  have 3: "all_succeed env ?N \<longrightarrow>
        (\<forall>i < ?N. use_mmap (g_blocks ?p' ! (length (g_blocks p) + i)) = even i)"
  proof (intro impI allI)
    fix i
    assume ok: "all_succeed env ?N" and i: "i < ?N"
    have "g_blocks ?p' = g_blocks p @ map (block_of env ?bs) [0..<?N]"
      by (rule g_blocks_allocate_all [OF assms ok])
    then have "g_blocks ?p' ! (length (g_blocks p) + i) = block_of env ?bs i"
      using i by (simp add: nth_append)
    then show "use_mmap (g_blocks ?p' ! (length (g_blocks p) + i)) = even i"
      by (simp add: block_of_def even_iff_mod_2_eq_zero)
  qed
  have 4: "all_succeed env ?N \<and> even ?N \<longrightarrow>
        length (filter use_mmap (drop (length (g_blocks p)) (g_blocks ?p'))) = ?N div 2
        \<and> length (filter (\<lambda>b. \<not> use_mmap b) (drop (length (g_blocks p)) (g_blocks ?p')))
          = ?N div 2"
  proof (intro impI)
    assume h: "all_succeed env ?N \<and> even ?N"
    then obtain k where k: "?N = 2 * k" by (auto elim: evenE)
    have new: "drop (length (g_blocks p)) (g_blocks ?p') = map (block_of env ?bs) [0..<2 * k]"
      using new_blocks_allocate [OF assms, of p env] filter_all_succeed [of env ?N] h
      by (simp add: k)
    have e: "length (filter use_mmap (drop (length (g_blocks p)) (g_blocks ?p'))) = k"
      unfolding new filter_use_mmap_block_of length_map by (rule count_even_upt)
    have o: "length (filter (\<lambda>b. \<not> use_mmap b) (drop (length (g_blocks p)) (g_blocks ?p'))) = k"
      unfolding new filter_heap_block_of length_map by (rule count_odd_upt)
    have half: "?N div 2 = k" by (simp add: k)
    show "length (filter use_mmap (drop (length (g_blocks p)) (g_blocks ?p'))) = ?N div 2
        \<and> length (filter (\<lambda>b. \<not> use_mmap b) (drop (length (g_blocks p)) (g_blocks ?p')))
          = ?N div 2"
      by (simp only: e o half)
  qed
  show ?thesis
    by (intro conjI 1 2 3 4)
qed

text \<open>Four blocks allocated in one call on the empty registry, all allocations
  succeeding: mmap, malloc, mmap, malloc; two descriptors of each origin.\<close>

theorem origin_alternates_witness:
  "0 < sint (4 :: jint) \<and> 0 < sint (1 :: jint)
   \<and> all_succeed (bump_env (0x10000000 :: 64 word) 0x100000) (nat (sint (4 :: jint)))
   \<and> even (nat (sint (4 :: jint)))
   \<and> filter is_alloc (drop (length (trace (empty_proc :: 64 proc)))
        (trace (snd (allocateNativeBlocks (bump_env 0x10000000 0x100000) 4 1
           (empty_proc :: 64 proc)))))
       = [Mmap 1048576, Malloc 1048576, Mmap 1048576, Malloc 1048576]
   \<and> map use_mmap (g_blocks (snd (allocateNativeBlocks (bump_env 0x10000000 0x100000) 4 1
        (empty_proc :: 64 proc)))) = [True, False, True, False]
   \<and> length (filter use_mmap (drop (length (g_blocks (empty_proc :: 64 proc)))
        (g_blocks (snd (allocateNativeBlocks (bump_env 0x10000000 0x100000) 4 1
           (empty_proc :: 64 proc)))))) = 2
   \<and> length (filter (\<lambda>b. \<not> use_mmap b) (drop (length (g_blocks (empty_proc :: 64 proc)))
        (g_blocks (snd (allocateNativeBlocks (bump_env 0x10000000 0x100000) 4 1
           (empty_proc :: 64 proc)))))) = 2"
proof -
  have h1: "0 < sint (4 :: jint)" and h2: "0 < sint (1 :: jint)" by simp_all
  have h3: "all_succeed (bump_env (0x10000000 :: 64 word) 0x100000) (nat (sint (4 :: jint)))"
    using all_succeed_bump_4 by simp
  have h4: "even (nat (sint (4 :: jint)))" by simp
  note th = origin_alternates [OF h1 h2, of "empty_proc :: 64 proc"
      "bump_env (0x10000000 :: 64 word) 0x100000"]
  have 1: "filter is_alloc (drop (length (trace (empty_proc :: 64 proc)))
        (trace (snd (allocateNativeBlocks (bump_env 0x10000000 0x100000) 4 1
           (empty_proc :: 64 proc)))))
       = [Mmap 1048576, Malloc 1048576, Mmap 1048576, Malloc 1048576]"
    using th by (simp add: upt_conv_Cons size_t_of_jint_def)
  have 2: "map use_mmap (g_blocks (snd (allocateNativeBlocks (bump_env 0x10000000 0x100000) 4 1
        (empty_proc :: 64 proc)))) = [True, False, True, False]"
    by (simp add: allocate_4_1 four_blocks_def)
  have "length (filter use_mmap (drop (length (g_blocks (empty_proc :: 64 proc)))
        (g_blocks (snd (allocateNativeBlocks (bump_env 0x10000000 0x100000) 4 1
           (empty_proc :: 64 proc)))))) = nat (sint (4 :: jint)) div 2
     \<and> length (filter (\<lambda>b. \<not> use_mmap b) (drop (length (g_blocks (empty_proc :: 64 proc)))
        (g_blocks (snd (allocateNativeBlocks (bump_env 0x10000000 0x100000) 4 1
           (empty_proc :: 64 proc)))))) = nat (sint (4 :: jint)) div 2"
    using th h3 h4 by blast
  then have 3: "length (filter use_mmap (drop (length (g_blocks (empty_proc :: 64 proc)))
        (g_blocks (snd (allocateNativeBlocks (bump_env 0x10000000 0x100000) 4 1
           (empty_proc :: 64 proc)))))) = 2
     \<and> length (filter (\<lambda>b. \<not> use_mmap b) (drop (length (g_blocks (empty_proc :: 64 proc)))
        (g_blocks (snd (allocateNativeBlocks (bump_env 0x10000000 0x100000) 4 1
           (empty_proc :: 64 proc)))))) = 2"
    by simp
  show ?thesis
    using 3 by (intro conjI h1 h2 h3 h4 1 2) simp_all
qed

subsection \<open>Allocations that fail\<close>

lemma allocate_fail_1:
  "allocateNativeBlocks env_fail_1 3 1 two_blocks
     = (4194304,
        \<lparr>g_blocks = [\<lparr>ptr = 0x10000000, size_b = 0x100000, use_mmap = True\<rparr>,
                     \<lparr>ptr = 0x10100000, size_b = 0x100000, use_mmap = False\<rparr>,
                     \<lparr>ptr = 0x10200000, size_b = 0x100000, use_mmap = True\<rparr>,
                     \<lparr>ptr = 0x10400000, size_b = 0x100000, use_mmap = True\<rparr>],
         trace = [Mmap 0x100000, Memset 0x10200000 0x5A 0x100000,
                  Malloc 0x100000,
                  Mmap 0x100000, Memset 0x10400000 0x5A 0x100000]\<rparr>)"
  by (simp add: allocateNativeBlocks_def alloc_loop_fold alloc_body_def bump_env_def fail_at_def
      env_fail_1_def
      size_t_of_jint_def jlong_of_size_t_def total_allocated_bytes_def MAP_FAILED_def
      nullptr_def two_blocks_def Let_def upt_conv_Cons)

text \<open>
  C6. In a call \<^verbatim>\<open>allocateNativeBlocks(n, s)\<close> with \<open>n > 0\<close> and \<open>s > 0\<close>, whatever the
  allocation primitives return: an index whose allocation fails (\<^verbatim>\<open>mmap\<close> returns
  \<^verbatim>\<open>MAP_FAILED\<close>, which the code turns into null, or a primitive returns null) is requested
  and nothing more is done for it, neither \<^verbatim>\<open>memset\<close> nor an append; the loop goes on
  with the indices after it, so every index from 0 to \<open>n - 1\<close> is requested, in order; the
  registry grows by the descriptors of the indices that succeeded, in order; and the
  value returned is the total of the registry after the call, converted to \<^verbatim>\<open>jlong\<close>. The
  call always returns a value: the model has no other outcome.
\<close>

theorem allocate_skips_failed_blocks:
  fixes n s :: jint and p :: "'w::len proc"
  assumes "0 < sint n" and "0 < sint s"
  shows
  "g_blocks (snd (allocateNativeBlocks env n s p))
     = g_blocks p @ map (block_of env (size_t_of_jint s * 1024 * 1024))
                        (filter (succeeds env) [0..<nat (sint n)])
   \<and> trace (snd (allocateNativeBlocks env n s p))
     = trace p @ concat (map (calls_of env (size_t_of_jint s * 1024 * 1024)) [0..<nat (sint n)])
   \<and> (\<forall>k. (even k \<and> env k = MAP_FAILED) \<or> env k = nullptr \<longrightarrow>
          \<not> succeeds env k
          \<and> calls_of env (size_t_of_jint s * 1024 * 1024 :: 'w word) k
              = [if even k then Mmap (size_t_of_jint s * 1024 * 1024)
                 else Malloc (size_t_of_jint s * 1024 * 1024)])
   \<and> filter is_alloc (drop (length (trace p)) (trace (snd (allocateNativeBlocks env n s p))))
     = map (\<lambda>i. if even i then Mmap (size_t_of_jint s * 1024 * 1024)
                 else Malloc (size_t_of_jint s * 1024 * 1024)) [0..<nat (sint n)]
   \<and> fst (allocateNativeBlocks env n s p)
     = jlong_of_size_t (total_allocated_bytes (snd (allocateNativeBlocks env n s p)))
   \<and> total_allocated_bytes (snd (allocateNativeBlocks env n s p))
     = total_allocated_bytes p
       + of_nat (length (filter (succeeds env) [0..<nat (sint n)]))
         * (size_t_of_jint s * 1024 * 1024)
   \<and> (unat (total_allocated_bytes (snd (allocateNativeBlocks env n s p))) < 2 ^ 63 \<longrightarrow>
        sint (fst (allocateNativeBlocks env n s p))
        = int (unat (total_allocated_bytes (snd (allocateNativeBlocks env n s p)))))"
proof -
  let ?bs = "size_t_of_jint s * 1024 * 1024 :: 'w word"
  have req: "request_of ?bs = (\<lambda>i. if even i then Mmap ?bs else Malloc ?bs)"
    by (rule ext) (simp add: request_of_def even_iff_mod_2_eq_zero)
  have 3: "\<forall>k. (even k \<and> env k = MAP_FAILED) \<or> env k = nullptr \<longrightarrow>
          \<not> succeeds env k
          \<and> calls_of env ?bs k = [if even k then Mmap ?bs else Malloc ?bs]"
    by (auto simp: succeeds_def calls_of_def even_iff_mod_2_eq_zero)
  have 4: "filter is_alloc (drop (length (trace p)) (trace (snd (allocateNativeBlocks env n s p))))
     = map (\<lambda>i. if even i then Mmap ?bs else Malloc ?bs) [0..<nat (sint n)]"
    using requests_allocate [OF assms, of p env] by (simp only: req)
  have 7: "unat (total_allocated_bytes (snd (allocateNativeBlocks env n s p))) < 2 ^ 63 \<longrightarrow>
        sint (fst (allocateNativeBlocks env n s p))
        = int (unat (total_allocated_bytes (snd (allocateNativeBlocks env n s p))))"
    using sint_jlong_of_size_t [of "total_allocated_bytes (snd (allocateNativeBlocks env n s p))"]
    by (simp add: fst_allocate)
  show ?thesis
    by (intro conjI g_blocks_allocate [OF assms] trace_allocate [OF assms] 3 4 fst_allocate
        total_allocate [OF assms] 7)
qed

text \<open>Three blocks of 1 MiB are requested on top of two live ones and \<^verbatim>\<open>malloc\<close> returns
  null for index 1: the blocks of the indices 0 and 2 are appended, index 2 is still
  requested after the failure, and the call returns \<open>4 * 1048576\<close>.\<close>

theorem allocate_skips_failed_blocks_witness:
  "0 < sint (3 :: jint) \<and> 0 < sint (1 :: jint)
   \<and> env_fail_1 1 = nullptr
   \<and> \<not> succeeds env_fail_1 1
   \<and> drop 2 (g_blocks (snd (allocateNativeBlocks env_fail_1 3 1
        two_blocks)))
       = [\<lparr>ptr = 0x10200000, size_b = 0x100000, use_mmap = True\<rparr>,
          \<lparr>ptr = 0x10400000, size_b = 0x100000, use_mmap = True\<rparr>]
   \<and> trace (snd (allocateNativeBlocks env_fail_1 3 1 two_blocks))
       = [Mmap 0x100000, Memset 0x10200000 0x5A 0x100000, Malloc 0x100000,
          Mmap 0x100000, Memset 0x10400000 0x5A 0x100000]
   \<and> unat (total_allocated_bytes
        (snd (allocateNativeBlocks env_fail_1 3 1 two_blocks)))
       < 2 ^ 63
   \<and> sint (fst (allocateNativeBlocks env_fail_1 3 1 two_blocks))
       = 4194304"
proof -
  have h1: "0 < sint (3 :: jint)" and h2: "0 < sint (1 :: jint)" by simp_all
  note th = allocate_skips_failed_blocks [OF h1 h2, of env_fail_1
      two_blocks]
  have f: "env_fail_1 1 = nullptr"
    by (simp add: env_fail_1_def fail_at_def)
  have ns: "\<not> succeeds env_fail_1 1"
    using th f by blast
  have t: "total_allocated_bytes
        (snd (allocateNativeBlocks env_fail_1 3 1 two_blocks))
      = 4194304"
    by (simp add: allocate_fail_1 total_allocated_bytes_def)
  have u: "unat (total_allocated_bytes
        (snd (allocateNativeBlocks env_fail_1 3 1 two_blocks)))
       < 2 ^ 63"
    by (simp add: t)
  have "sint (fst (allocateNativeBlocks env_fail_1 3 1 two_blocks))
      = int (unat (total_allocated_bytes
        (snd (allocateNativeBlocks env_fail_1 3 1 two_blocks))))"
    using th u by blast
  then have r: "sint (fst (allocateNativeBlocks env_fail_1 3 1
      two_blocks)) = 4194304"
    by (simp add: t)
  have b: "drop 2 (g_blocks (snd (allocateNativeBlocks env_fail_1 3 1
        two_blocks)))
       = [\<lparr>ptr = 0x10200000, size_b = 0x100000, use_mmap = True\<rparr>,
          \<lparr>ptr = 0x10400000, size_b = 0x100000, use_mmap = True\<rparr>]"
    by (simp add: allocate_fail_1)
  have c: "trace (snd (allocateNativeBlocks env_fail_1 3 1 two_blocks))
       = [Mmap 0x100000, Memset 0x10200000 0x5A 0x100000, Malloc 0x100000,
          Mmap 0x100000, Memset 0x10400000 0x5A 0x100000]"
    by (simp add: allocate_fail_1)
  show ?thesis
    by (intro conjI h1 h2 f ns b c u r)
qed

subsection \<open>The block index of a call\<close>

lemma upt_0_pos: "0 < k \<Longrightarrow> [0..<k] = 0 # [Suc 0..<k]"
  by (rule upt_conv_Cons)

lemma allocate_1_blocks:
  fixes s :: jint and p :: "'w::len proc"
  assumes "0 < sint s" "succeeds env 0"
  shows "g_blocks (snd (allocateNativeBlocks env 1 s p))
    = g_blocks p @ [\<lparr>ptr = env 0, size_b = size_t_of_jint s * 1024 * 1024, use_mmap = True\<rparr>]"
proof -
  have "0 < sint (1 :: jint)" by simp
  from g_blocks_allocate [OF this assms(1), where p = p and env = env] assms(2)
  show ?thesis by (simp add: block_of_def)
qed

lemma allocate_2_blocks:
  fixes s :: jint and p :: "'w::len proc"
  assumes "0 < sint s" "all_succeed env 2"
  shows "g_blocks (snd (allocateNativeBlocks env 2 s p))
    = g_blocks p @ [\<lparr>ptr = env 0, size_b = size_t_of_jint s * 1024 * 1024, use_mmap = True\<rparr>,
                     \<lparr>ptr = env 1, size_b = size_t_of_jint s * 1024 * 1024, use_mmap = False\<rparr>]"
proof -
  have two: "0 < sint (2 :: jint)" by simp
  have ok: "all_succeed env (nat (sint (2 :: jint)))" using assms(2) by simp
  have "[0..<nat (sint (2 :: jint))] = [0, 1]" by (simp add: upt_conv_Cons)
  with g_blocks_allocate_all [OF two assms(1) ok, of p]
  show ?thesis by (simp add: block_of_def)
qed

text \<open>
  C10. The index that selects the origin starts at 0 in every call of
  \<^verbatim>\<open>allocateNativeBlocks\<close>, whatever the registry already holds: for \<open>n > 0\<close> and \<open>s > 0\<close> the
  first primitive of the call is \<^verbatim>\<open>mmap\<close>, and when it succeeds the first descriptor
  appended is page-mapped. So two calls \<^verbatim>\<open>allocate(1, s)\<close> in a row append two page-mapped
  descriptors, while one call \<^verbatim>\<open>allocate(2, s)\<close> appends a page-mapped and a heap
  descriptor: the mix of origins in the registry depends on how the blocks were batched.
\<close>

theorem block_index_restarts:
  fixes n s :: jint and p :: "'w::len proc"
  assumes "0 < sint s"
  shows
  "(0 < sint n \<longrightarrow>
      take 1 (drop (length (trace p)) (trace (snd (allocateNativeBlocks env n s p))))
        = [Mmap (size_t_of_jint s * 1024 * 1024)]
      \<and> (succeeds env 0 \<longrightarrow>
           g_blocks (snd (allocateNativeBlocks env n s p)) ! length (g_blocks p)
             = \<lparr>ptr = env 0, size_b = size_t_of_jint s * 1024 * 1024, use_mmap = True\<rparr>))
   \<and> (succeeds env1 0 \<and> succeeds env2 0 \<longrightarrow>
        map use_mmap (g_blocks (snd (allocateNativeBlocks env2 1 s
                                  (snd (allocateNativeBlocks env1 1 s p)))))
          = map use_mmap (g_blocks p) @ [True, True])
   \<and> (all_succeed env3 2 \<longrightarrow>
        map use_mmap (g_blocks (snd (allocateNativeBlocks env3 2 s p)))
          = map use_mmap (g_blocks p) @ [True, False])"
proof -
  let ?bs = "size_t_of_jint s * 1024 * 1024 :: 'w word"
  have 1: "0 < sint n \<longrightarrow>
      take 1 (drop (length (trace p)) (trace (snd (allocateNativeBlocks env n s p))))
        = [Mmap ?bs]
      \<and> (succeeds env 0 \<longrightarrow>
           g_blocks (snd (allocateNativeBlocks env n s p)) ! length (g_blocks p)
             = \<lparr>ptr = env 0, size_b = ?bs, use_mmap = True\<rparr>)"
  proof (intro impI conjI)
    assume n: "0 < sint n"
    then have upt: "[0..<nat (sint n)] = 0 # [Suc 0..<nat (sint n)]"
      by (intro upt_0_pos) simp
    show "take 1 (drop (length (trace p)) (trace (snd (allocateNativeBlocks env n s p))))
        = [Mmap ?bs]"
      by (simp add: new_trace_allocate [OF n assms] upt calls_of_def)
    assume "succeeds env 0"
    then show "g_blocks (snd (allocateNativeBlocks env n s p)) ! length (g_blocks p)
             = \<lparr>ptr = env 0, size_b = ?bs, use_mmap = True\<rparr>"
      by (simp add: g_blocks_allocate [OF n assms] upt block_of_def)
  qed
  have 2: "succeeds env1 0 \<and> succeeds env2 0 \<longrightarrow>
        map use_mmap (g_blocks (snd (allocateNativeBlocks env2 1 s
                                  (snd (allocateNativeBlocks env1 1 s p)))))
          = map use_mmap (g_blocks p) @ [True, True]"
    by (simp add: allocate_1_blocks [OF assms])
  have 3: "all_succeed env3 2 \<longrightarrow>
        map use_mmap (g_blocks (snd (allocateNativeBlocks env3 2 s p)))
          = map use_mmap (g_blocks p) @ [True, False]"
    by (simp add: allocate_2_blocks [OF assms])
  show ?thesis
    by (intro conjI 1 2 3)
qed

text \<open>On two live blocks of a 64-bit process: the first primitive of a call is
  \<^verbatim>\<open>mmap\<close>; two calls for one block each give the tags page-mapped, page-mapped; one call
  for two blocks gives page-mapped, heap.\<close>

theorem block_index_restarts_witness:
  "0 < sint (1 :: jint) \<and> 0 < sint (3 :: jint)
   \<and> succeeds (bump_env (0x10200000 :: 64 word) 0x100000) 0
   \<and> succeeds (bump_env (0x10300000 :: 64 word) 0x100000) 0
   \<and> all_succeed (bump_env (0x10200000 :: 64 word) 0x100000) 2
   \<and> take 1 (drop (length (trace two_blocks))
        (trace (snd (allocateNativeBlocks (bump_env 0x10200000 0x100000) 3 1 two_blocks))))
       = [Mmap 1048576]
   \<and> g_blocks (snd (allocateNativeBlocks (bump_env 0x10200000 0x100000) 3 1 two_blocks)) ! 2
       = \<lparr>ptr = 0x10200000, size_b = 1048576, use_mmap = True\<rparr>
   \<and> map use_mmap (g_blocks (snd (allocateNativeBlocks (bump_env 0x10300000 0x100000) 1 1
        (snd (allocateNativeBlocks (bump_env 0x10200000 0x100000) 1 1 two_blocks)))))
       = [True, False, True, True]
   \<and> map use_mmap (g_blocks (snd (allocateNativeBlocks (bump_env 0x10200000 0x100000) 2 1
        two_blocks)))
       = [True, False, True, False]"
proof -
  have h1: "0 < sint (1 :: jint)" and h3: "0 < sint (3 :: jint)" by simp_all
  have s1: "succeeds (bump_env (0x10200000 :: 64 word) 0x100000) 0"
    and s2: "succeeds (bump_env (0x10300000 :: 64 word) 0x100000) 0"
    by (simp_all add: succeeds_def bump_env_def MAP_FAILED_def nullptr_def)
  have a2: "all_succeed (bump_env (0x10200000 :: 64 word) 0x100000) 2"
    by (simp add: all_succeed_def succeeds_def bump_env_def MAP_FAILED_def nullptr_def
        upt_conv_Cons)
  note th = block_index_restarts [OF h1, where n = 3 and p = two_blocks
      and env = "bump_env 0x10200000 0x100000" and ?env1.0 = "bump_env 0x10200000 0x100000"
      and ?env2.0 = "bump_env 0x10300000 0x100000" and ?env3.0 = "bump_env 0x10200000 0x100000"]
  have len: "length (g_blocks two_blocks) = 2" by (simp add: two_blocks_def)
  have tags: "map use_mmap (g_blocks two_blocks) = [True, False]" by (simp add: two_blocks_def)
  have bs: "(size_t_of_jint 1 * 1024 * 1024 :: 64 word) = 1048576"
    by (simp add: size_t_of_jint_def)
  have e0: "bump_env (0x10200000 :: 64 word) 0x100000 0 = 0x10200000"
    by (simp add: bump_env_def)
  have 1: "take 1 (drop (length (trace two_blocks))
        (trace (snd (allocateNativeBlocks (bump_env 0x10200000 0x100000) 3 1 two_blocks))))
       = [Mmap (size_t_of_jint 1 * 1024 * 1024)]"
    using th h3 by blast
  have 2: "g_blocks (snd (allocateNativeBlocks (bump_env 0x10200000 0x100000) 3 1 two_blocks))
        ! length (g_blocks two_blocks)
       = \<lparr>ptr = bump_env 0x10200000 0x100000 0, size_b = size_t_of_jint 1 * 1024 * 1024,
          use_mmap = True\<rparr>"
    using th h3 s1 by blast
  have 3: "map use_mmap (g_blocks (snd (allocateNativeBlocks (bump_env 0x10300000 0x100000) 1 1
        (snd (allocateNativeBlocks (bump_env 0x10200000 0x100000) 1 1 two_blocks)))))
       = map use_mmap (g_blocks two_blocks) @ [True, True]"
    using th s1 s2 by blast
  have 4: "map use_mmap (g_blocks (snd (allocateNativeBlocks (bump_env 0x10200000 0x100000) 2 1
        two_blocks)))
       = map use_mmap (g_blocks two_blocks) @ [True, False]"
    using th a2 by blast
  show ?thesis
    using 1 2 3 4 unfolding len tags bs e0
    by (intro conjI h1 h3 s1 s2 a2) simp_all
qed

subsection \<open>Two calls and one\<close>

lemma sint_add_jint:
  fixes a b :: jint
  assumes "0 < sint a" "0 < sint b" "sint a + sint b < 2 ^ 31"
  shows "sint (a + b) = sint a + sint b"
proof -
  have "sint (a + b) = signed_take_bit (LENGTH(32) - 1) (sint a + sint b)"
    by (rule sint_word_add)
  also have "\<dots> = sint a + sint b"
  proof (rule signed_take_bit_int_eq_self)
    have "- (2 ^ (LENGTH(32) - 1)) \<le> (0::int)" by simp
    also have "0 \<le> sint a + sint b" using assms(1,2) by simp
    finally show "- (2 ^ (LENGTH(32) - 1)) \<le> sint a + sint b" .
    show "sint a + sint b < 2 ^ (LENGTH(32) - 1)" using assms(3) by simp
  qed
  finally show ?thesis .
qed

lemma stats_depends:
  assumes "length (g_blocks p) = length (g_blocks q)"
    and "total_allocated_bytes p = total_allocated_bytes q"
  shows "fst (getNativeStats p) = fst (getNativeStats q)"
  by (simp only: stats_string assms)

lemma allocate_5_1:
  "allocateNativeBlocks (bump_env 0x10000000 0x100000) 5 1 (empty_proc :: 64 proc)
     = (5242880,
        \<lparr>g_blocks = [\<lparr>ptr = 0x10000000, size_b = 0x100000, use_mmap = True\<rparr>,
                     \<lparr>ptr = 0x10100000, size_b = 0x100000, use_mmap = False\<rparr>,
                     \<lparr>ptr = 0x10200000, size_b = 0x100000, use_mmap = True\<rparr>,
                     \<lparr>ptr = 0x10300000, size_b = 0x100000, use_mmap = False\<rparr>,
                     \<lparr>ptr = 0x10400000, size_b = 0x100000, use_mmap = True\<rparr>],
         trace = [Mmap 0x100000, Memset 0x10000000 0x5A 0x100000,
                  Malloc 0x100000, Memset 0x10100000 0x5A 0x100000,
                  Mmap 0x100000, Memset 0x10200000 0x5A 0x100000,
                  Malloc 0x100000, Memset 0x10300000 0x5A 0x100000,
                  Mmap 0x100000, Memset 0x10400000 0x5A 0x100000]\<rparr>)"
  by (simp add: allocateNativeBlocks_def alloc_loop_fold alloc_body_def bump_env_def
      size_t_of_jint_def jlong_of_size_t_def total_allocated_bytes_def MAP_FAILED_def
      nullptr_def empty_proc_def Let_def upt_conv_Cons)

lemma all_succeed_bump:
  "all_succeed (bump_env (0x10000000 :: 64 word) 0x100000) 2"
  "all_succeed (bump_env (0x10200000 :: 64 word) 0x100000) 3"
  "all_succeed (bump_env (0x10000000 :: 64 word) 0x100000) 5"
  by (simp_all add: all_succeed_def succeeds_def bump_env_def MAP_FAILED_def nullptr_def
      upt_conv_Cons)

text \<open>
  C8. Let \<open>a > 0\<close>, \<open>b > 0\<close> and \<open>s > 0\<close>, with \<open>a + b\<close> a value of \<^verbatim>\<open>jint\<close> (the argument of
  the single call). From any state, when no allocation fails, \<^verbatim>\<open>allocate(a, s)\<close> followed
  by \<^verbatim>\<open>allocate(b, s)\<close> and a single \<^verbatim>\<open>allocate(a + b, s)\<close> agree on everything a caller
  can observe: the value returned last, the number of blocks, the sizes of the blocks,
  the byte total, the statistics string and what a release would return. The origin
  tags of the descriptors are not compared.
\<close>

theorem allocate_additive:
  fixes a b s :: jint and p :: "'w::len proc"
  assumes "0 < sint a" and "0 < sint b" and "0 < sint s"
    and "sint a + sint b < 2 ^ 31"
    and "all_succeed env1 (nat (sint a))"
    and "all_succeed env2 (nat (sint b))"
    and "all_succeed env3 (nat (sint a) + nat (sint b))"
  shows
  "fst (allocateNativeBlocks env2 b s (snd (allocateNativeBlocks env1 a s p)))
     = fst (allocateNativeBlocks env3 (a + b) s p)
   \<and> length (g_blocks (snd (allocateNativeBlocks env2 b s (snd (allocateNativeBlocks env1 a s p)))))
     = length (g_blocks (snd (allocateNativeBlocks env3 (a + b) s p)))
   \<and> map size_b (g_blocks (snd (allocateNativeBlocks env2 b s
          (snd (allocateNativeBlocks env1 a s p)))))
     = map size_b (g_blocks (snd (allocateNativeBlocks env3 (a + b) s p)))
   \<and> total_allocated_bytes (snd (allocateNativeBlocks env2 b s
          (snd (allocateNativeBlocks env1 a s p))))
     = total_allocated_bytes (snd (allocateNativeBlocks env3 (a + b) s p))
   \<and> fst (getNativeStats (snd (allocateNativeBlocks env2 b s
          (snd (allocateNativeBlocks env1 a s p)))))
     = fst (getNativeStats (snd (allocateNativeBlocks env3 (a + b) s p)))
   \<and> fst (freeAllNativeBlocks (snd (allocateNativeBlocks env2 b s
          (snd (allocateNativeBlocks env1 a s p)))))
     = fst (freeAllNativeBlocks (snd (allocateNativeBlocks env3 (a + b) s p)))"
proof -
  let ?A = "nat (sint a)" and ?B = "nat (sint b)"
  let ?bs = "size_t_of_jint s * 1024 * 1024 :: 'w word"
  let ?p1 = "snd (allocateNativeBlocks env1 a s p)"
  let ?p2 = "snd (allocateNativeBlocks env2 b s ?p1)"
  let ?p3 = "snd (allocateNativeBlocks env3 (a + b) s p)"
  have sum: "sint (a + b) = sint a + sint b"
    by (rule sint_add_jint [OF assms(1,2,4)])
  have ab: "0 < sint (a + b)" using assms(1,2) by (simp add: sum)
  have AB: "nat (sint (a + b)) = ?A + ?B" using assms(1,2) by (simp add: sum nat_add_distrib)
  have ok3: "all_succeed env3 (nat (sint (a + b)))" using assms(7) by (simp only: AB)
  have g1: "g_blocks ?p1 = g_blocks p @ map (block_of env1 ?bs) [0..<?A]"
    by (rule g_blocks_allocate_all [OF assms(1,3,5)])
  have g2: "g_blocks ?p2 = g_blocks ?p1 @ map (block_of env2 ?bs) [0..<?B]"
    by (rule g_blocks_allocate_all [OF assms(2,3,6)])
  have g3: "g_blocks ?p3 = g_blocks p @ map (block_of env3 ?bs) [0..<?A + ?B]"
    using g_blocks_allocate_all [OF ab assms(3) ok3, of p] by (simp only: AB)
  have len: "length (g_blocks ?p2) = length (g_blocks ?p3)"
    by (simp add: g1 g2 g3)
  have sizes: "map size_b (g_blocks ?p2) = map size_b (g_blocks ?p3)"
    unfolding g1 g2 g3 map_append sizes_block_of by (simp add: replicate_add)
  have tot: "total_allocated_bytes ?p2 = total_allocated_bytes ?p3"
    unfolding total_allocated_bytes_sum by (simp only: sizes)
  have ret: "fst (allocateNativeBlocks env2 b s ?p1) = fst (allocateNativeBlocks env3 (a + b) s p)"
    by (simp only: fst_allocate tot)
  have stats: "fst (getNativeStats ?p2) = fst (getNativeStats ?p3)"
    by (rule stats_depends [OF len tot])
  have rel: "fst (freeAllNativeBlocks ?p2) = fst (freeAllNativeBlocks ?p3)"
    by (simp add: freeAll_eq tot)
  show ?thesis
    by (intro conjI ret len sizes tot stats rel)
qed

text \<open>\<^verbatim>\<open>allocate(2, 1)\<close> then \<^verbatim>\<open>allocate(3, 1)\<close>, and \<^verbatim>\<open>allocate(5, 1)\<close>, on the empty registry
  of a 64-bit process: both end with five blocks and return 5242880.\<close>

theorem allocate_additive_witness:
  "0 < sint (2 :: jint) \<and> 0 < sint (3 :: jint) \<and> 0 < sint (1 :: jint)
   \<and> sint (2 :: jint) + sint (3 :: jint) < 2 ^ 31
   \<and> all_succeed (bump_env (0x10000000 :: 64 word) 0x100000) (nat (sint (2 :: jint)))
   \<and> all_succeed (bump_env (0x10200000 :: 64 word) 0x100000) (nat (sint (3 :: jint)))
   \<and> all_succeed (bump_env (0x10000000 :: 64 word) 0x100000)
        (nat (sint (2 :: jint)) + nat (sint (3 :: jint)))
   \<and> sint (fst (allocateNativeBlocks (bump_env 0x10200000 0x100000) 3 1
        (snd (allocateNativeBlocks (bump_env 0x10000000 0x100000) 2 1 (empty_proc :: 64 proc)))))
       = 5242880
   \<and> sint (fst (allocateNativeBlocks (bump_env 0x10000000 0x100000) (2 + 3) 1
        (empty_proc :: 64 proc))) = 5242880
   \<and> length (g_blocks (snd (allocateNativeBlocks (bump_env 0x10200000 0x100000) 3 1
        (snd (allocateNativeBlocks (bump_env 0x10000000 0x100000) 2 1 (empty_proc :: 64 proc))))))
       = 5"
proof -
  have h1: "0 < sint (2 :: jint)" and h2: "0 < sint (3 :: jint)" and h3: "0 < sint (1 :: jint)"
    by simp_all
  have h4: "sint (2 :: jint) + sint (3 :: jint) < 2 ^ 31" by simp
  have h5: "all_succeed (bump_env (0x10000000 :: 64 word) 0x100000) (nat (sint (2 :: jint)))"
    using all_succeed_bump(1) by simp
  have h6: "all_succeed (bump_env (0x10200000 :: 64 word) 0x100000) (nat (sint (3 :: jint)))"
    using all_succeed_bump(2) by simp
  have h7: "all_succeed (bump_env (0x10000000 :: 64 word) 0x100000)
        (nat (sint (2 :: jint)) + nat (sint (3 :: jint)))"
    using all_succeed_bump(3) by simp
  note th = allocate_additive [OF h1 h2 h3 h4 h5 h6 h7, of "empty_proc :: 64 proc"]
  have five: "allocateNativeBlocks (bump_env 0x10000000 0x100000) (2 + 3) 1 (empty_proc :: 64 proc)
      = allocateNativeBlocks (bump_env 0x10000000 0x100000) 5 1 (empty_proc :: 64 proc)"
    by simp
  have r3: "sint (fst (allocateNativeBlocks (bump_env 0x10000000 0x100000) (2 + 3) 1
        (empty_proc :: 64 proc))) = 5242880"
    unfolding five allocate_5_1 by simp
  have l3: "length (g_blocks (snd (allocateNativeBlocks (bump_env 0x10000000 0x100000) (2 + 3) 1
        (empty_proc :: 64 proc)))) = 5"
    unfolding five allocate_5_1 by simp
  have r2: "sint (fst (allocateNativeBlocks (bump_env 0x10200000 0x100000) 3 1
        (snd (allocateNativeBlocks (bump_env 0x10000000 0x100000) 2 1 (empty_proc :: 64 proc)))))
       = 5242880"
    using th r3 by metis
  have l2: "length (g_blocks (snd (allocateNativeBlocks (bump_env 0x10200000 0x100000) 3 1
        (snd (allocateNativeBlocks (bump_env 0x10000000 0x100000) 2 1 (empty_proc :: 64 proc))))))
       = 5"
    using th l3 by metis
  show ?thesis
    by (intro conjI h1 h2 h3 h4 h5 h6 h7 r2 r3 l2)
qed

subsection \<open>The invariant of the registry\<close>

lemma valid_block_of:
  "succeeds env i \<Longrightarrow> bs \<noteq> 0 \<Longrightarrow> valid_block (block_of env bs i)"
  by (auto simp: valid_block_def block_of_def succeeds_def split: if_splits)

lemma ptr_block_of: "succeeds env i \<Longrightarrow> ptr (block_of env bs i) \<noteq> nullptr"
  by (auto simp: block_of_def succeeds_def split: if_splits)

lemma allocate_invalid:
  "sint n \<le> 0 \<or> sint s \<le> 0 \<Longrightarrow> snd (allocateNativeBlocks env n s p) = p"
  by (auto simp: allocateNativeBlocks_def)

text \<open>No operation puts a descriptor with a null address into the registry.\<close>

lemma allocate_no_null_address:
  assumes "\<forall>b \<in> set (g_blocks p). ptr b \<noteq> nullptr"
  shows "\<forall>b \<in> set (g_blocks (snd (allocateNativeBlocks env n s p))). ptr b \<noteq> nullptr"
proof (cases "0 < sint n \<and> 0 < sint s")
  case True
  then show ?thesis
    using assms by (auto simp: g_blocks_allocate ptr_block_of)
next
  case False
  then have "snd (allocateNativeBlocks env n s p) = p"
    by (intro allocate_invalid) auto
  then show ?thesis using assms by simp
qed

text \<open>The invariant is kept by a call whose block size is not zero as a \<^verbatim>\<open>size_t\<close>.\<close>

lemma allocate_keeps_valid:
  fixes p :: "'w::len proc"
  assumes "list_all valid_block (g_blocks p)"
    and "(size_t_of_jint s * 1024 * 1024 :: 'w word) \<noteq> 0"
  shows "list_all valid_block (g_blocks (snd (allocateNativeBlocks env n s p)))"
proof (cases "0 < sint n \<and> 0 < sint s")
  case True
  then show ?thesis
    using assms by (auto simp: g_blocks_allocate list_all_iff valid_block_of)
next
  case False
  then have "snd (allocateNativeBlocks env n s p) = p"
    by (intro allocate_invalid) auto
  then show ?thesis using assms by simp
qed

text \<open>Where \<^verbatim>\<open>size_t\<close> has 51 bits or more, so on every 64-bit target, the block size of a
  positive \<^verbatim>\<open>block_size_mb\<close> is not zero.\<close>

lemma block_size_nonzero:
  fixes s :: jint
  assumes "0 < sint s" "51 \<le> LENGTH('w::len)"
  shows "(size_t_of_jint s * 1024 * 1024 :: 'w word) \<noteq> 0"
proof -
  have "sint s < 2 ^ (LENGTH(32) - 1)" by (rule sint_lt)
  then have "nat (sint s) < 2 ^ 31" using assms(1) by (simp add: nat_less_iff)
  then have "nat (sint s) * 1024 * 1024 < 2 ^ 31 * 1024 * 1024" by simp
  also have "\<dots> = (2::nat) ^ 51" by simp
  also have "\<dots> \<le> 2 ^ LENGTH('w)" using assms(2) by (rule power_increasing) simp
  finally have "unat (size_t_of_jint s * 1024 * 1024 :: 'w word) = nat (sint s) * 1024 * 1024"
    by (rule unat_block_size [OF assms(1)])
  then have "unat (size_t_of_jint s * 1024 * 1024 :: 'w word) \<noteq> 0" using assms(1) by simp
  then show ?thesis by (simp add: unat_eq_0)
qed

lemma allocate_keeps_valid_64:
  fixes p :: "64 proc"
  assumes "list_all valid_block (g_blocks p)"
  shows "list_all valid_block (g_blocks (snd (allocateNativeBlocks env n s p)))"
proof (cases "0 < sint s")
  case True
  have "(size_t_of_jint s * 1024 * 1024 :: 64 word) \<noteq> 0"
    by (rule block_size_nonzero [OF True]) simp
  with assms show ?thesis by (rule allocate_keeps_valid)
next
  case False
  then have "snd (allocateNativeBlocks env n s p) = p"
    by (intro allocate_invalid) auto
  then show ?thesis using assms by simp
qed

lemma release_keeps_valid: "list_all valid_block (g_blocks (snd (freeAllNativeBlocks p)))"
  by (simp add: freeAll_eq)

lemma stats_keeps_valid:
  "list_all valid_block (g_blocks p) \<Longrightarrow> list_all valid_block (g_blocks (snd (getNativeStats p)))"
  by (simp add: getNativeStats_def Let_def)

text \<open>
  C5. Every descriptor of the registry has a non-null address and a size above zero, and
  every operation keeps it so. The code keeps the addresses non-null, and it keeps the
  sizes above zero where \<^verbatim>\<open>size_t\<close> has 64 bits (the lemmas above). Where \<^verbatim>\<open>size_t\<close> has 32
  bits it does not: \<^verbatim>\<open>allocate(2, 4096)\<close> computes the block size
  \<open>4096 * 1024 * 1024 mod 2 ^ 32 = 0\<close>; \<^verbatim>\<open>mmap\<close> refuses the length 0 at index 0, and when
  \<^verbatim>\<open>malloc(0)\<close> returns an address at index 1, a descriptor of size zero is appended to
  the empty registry. The release that follows skips it, so its address is never freed.
\<close>

theorem zero_size_descriptor_appended:
  "list_all valid_block (g_blocks (empty_proc :: 32 proc))
   \<and> 0 < sint (2 :: jint) \<and> 0 < sint (4096 :: jint)
   \<and> (size_t_of_jint 4096 * 1024 * 1024 :: 32 word) = 0
   \<and> allocateNativeBlocks env32_mmap_fails 2 4096 empty_proc
       = (0, \<lparr>g_blocks = [\<lparr>ptr = 0x10100000, size_b = 0, use_mmap = False\<rparr>],
              trace = [Mmap 0, Malloc 0, Memset 0x10100000 0x5A 0]\<rparr>)
   \<and> \<not> list_all valid_block (g_blocks (snd (allocateNativeBlocks env32_mmap_fails 2 4096 empty_proc)))
   \<and> snd (freeAllNativeBlocks (snd (allocateNativeBlocks env32_mmap_fails 2 4096 empty_proc)))
       = \<lparr>g_blocks = [], trace = [Mmap 0, Malloc 0, Memset 0x10100000 0x5A 0]\<rparr>"
proof -
  have a: "allocateNativeBlocks env32_mmap_fails 2 4096 empty_proc
       = (0, \<lparr>g_blocks = [\<lparr>ptr = 0x10100000, size_b = 0, use_mmap = False\<rparr>],
              trace = [Mmap 0, Malloc 0, Memset 0x10100000 0x5A 0]\<rparr>)"
    by (simp add: allocateNativeBlocks_def alloc_loop_fold alloc_body_def bump_env_def
        fail_at_def env32_mmap_fails_def size_t_of_jint_def jlong_of_size_t_def
        total_allocated_bytes_def MAP_FAILED_def nullptr_def empty_proc_def Let_def
        upt_conv_Cons)
  show ?thesis
    unfolding a
    by (simp add: valid_block_def nullptr_def empty_proc_def size_t_of_jint_def freeAll_eq
        release_calls_def)
qed

end
